theory Spec2Isabelle
  imports Main "HOL-Library.AList" "HOL-Library.Sublist"
begin



section \<open>Python values, exceptions and remote calls\<close>

text \<open>
  The module \<^verbatim>\<open>workshop_nifi.py\<close> is a client of remote services. Every function it
  calls outside the module (the nipyapi SDK, the helper modules under \<^verbatim>\<open>.utils\<close>, the
  helpers imported by \<^verbatim>\<open>from . import *\<close>, \<^verbatim>\<open>requests\<close>, the file system) is a call whose
  answer is given by the environment. The values that flow through the script are Python
  values; objects returned by the services are records of attributes.
\<close>

datatype pyval =
    PNone
  | PBool bool
  | PInt int
  | PStr string
  | PTuple "pyval list"
  | PList "pyval list"
  | PDict "(string \<times> pyval) list"
  | PObj "(string \<times> pyval) list"

datatype exn =
    ApiException (status: "int option") (body: "string option")
  | AttributeError
  | TypeError
  | ValueError "pyval list"
  | OtherException string

datatype call = Call (fname: string) (args: "pyval list") (kwargs: "(string \<times> pyval) list")

type_synonym response = "exn + pyval"
type_synonym event = "call \<times> response"

text \<open>The environment answers a call knowing every call answered before it.\<close>

type_synonym world = "event list \<Rightarrow> call \<Rightarrow> response"

text \<open>
  The state of a run: the process environment \<^verbatim>\<open>os.environ\<close>, \<^verbatim>\<open>str(self.run_id)\<close>, the
  attributes of \<^verbatim>\<open>self.context\<close>, the calls answered so far and the lines given to
  \<^verbatim>\<open>LOG.debug\<close>.
\<close>

record state =
  environ :: "string \<rightharpoonup> string"
  run_id :: string
  ctxt :: "(string \<times> pyval) list"
  trace :: "event list"
  log_lines :: "(string \<times> pyval list) list"

type_synonym 'a M = "world \<Rightarrow> state \<Rightarrow> (exn + 'a) \<times> state"

definition returnM :: "'a \<Rightarrow> 'a M" where
  "returnM x = (\<lambda>w s. (Inr x, s))"

definition raiseM :: "exn \<Rightarrow> 'a M" where
  "raiseM e = (\<lambda>w s. (Inl e, s))"

definition bindM :: "'a M \<Rightarrow> ('a \<Rightarrow> 'b M) \<Rightarrow> 'b M" where
  "bindM m f = (\<lambda>w s. case m w s of (Inl e, s') \<Rightarrow> (Inl e, s') | (Inr x, s') \<Rightarrow> f x w s')"

definition liftM :: "exn + 'a \<Rightarrow> 'a M" where
  "liftM r = (\<lambda>w s. (r, s))"

definition callM :: "string \<Rightarrow> pyval list \<Rightarrow> (string \<times> pyval) list \<Rightarrow> pyval M" where
  "callM f as kw = (\<lambda>w s.
     let c = Call f as kw; r = w (trace s) c
     in (r, s\<lparr>trace := trace s @ [(c, r)]\<rparr>))"

definition try_except :: "'a M \<Rightarrow> (exn \<Rightarrow> 'a M) \<Rightarrow> 'a M" where
  "try_except m h = (\<lambda>w s. case m w s of (Inl e, s') \<Rightarrow> h e w s' | (Inr x, s') \<Rightarrow> (Inr x, s'))"

text \<open>Attribute reads and writes on \<^verbatim>\<open>self.context\<close>.\<close>

definition ctx_get :: "string \<Rightarrow> pyval M" where
  "ctx_get k = (\<lambda>w s. case map_of (ctxt s) k of None \<Rightarrow> (Inl AttributeError, s) | Some v \<Rightarrow> (Inr v, s))"

definition ctx_set :: "string \<Rightarrow> pyval \<Rightarrow> unit M" where
  "ctx_set k v = (\<lambda>w s. (Inr (), s\<lparr>ctxt := AList.update k v (ctxt s)\<rparr>))"

text \<open>\<^verbatim>\<open>self.context\<close> itself, passed as an argument.\<close>

definition ctx_obj :: "pyval M" where
  "ctx_obj = (\<lambda>w s. (Inr (PObj (ctxt s)), s))"

definition log_debug :: "string \<Rightarrow> pyval list \<Rightarrow> unit M" where
  "log_debug fmt as = (\<lambda>w s. (Inr (), s\<lparr>log_lines := log_lines s @ [(fmt, as)]\<rparr>))"

definition get_run_id :: "string M" where
  "get_run_id = (\<lambda>w s. (Inr (run_id s), s))"

definition get_environ :: "(string \<rightharpoonup> string) M" where
  "get_environ = (\<lambda>w s. (Inr (environ s), s))"

subsection \<open>Python operations on values\<close>

fun getattr :: "pyval \<Rightarrow> string \<Rightarrow> exn + pyval" where
  "getattr (PObj attrs) name = (case map_of attrs name of Some v \<Rightarrow> Inr v | None \<Rightarrow> Inl AttributeError)"
| "getattr v name = Inl AttributeError"

fun truthy :: "pyval \<Rightarrow> bool" where
  "truthy PNone = False"
| "truthy (PBool b) = b"
| "truthy (PInt i) = (i \<noteq> 0)"
| "truthy (PStr s) = (s \<noteq> [])"
| "truthy (PTuple xs) = (xs \<noteq> [])"
| "truthy (PList xs) = (xs \<noteq> [])"
| "truthy (PDict kvs) = (kvs \<noteq> [])"
| "truthy (PObj attrs) = True"

fun iter_py :: "pyval \<Rightarrow> exn + pyval list" where
  "iter_py (PList xs) = Inr xs"
| "iter_py (PTuple xs) = Inr xs"
| "iter_py (PDict kvs) = Inr (map (\<lambda>kv. PStr (fst kv)) kvs)"
| "iter_py (PStr s) = Inr (map (\<lambda>c. PStr [c]) s)"
| "iter_py v = Inl TypeError"

text \<open>\<^verbatim>\<open>a, b, c = v\<close>\<close>

fun unpack3 :: "pyval \<Rightarrow> exn + (pyval \<times> pyval \<times> pyval)" where
  "unpack3 v = (case iter_py v of
      Inl e \<Rightarrow> Inl e
    | Inr [] \<Rightarrow> Inl (ValueError [PStr ''not enough values to unpack (expected 3, got 0)''])
    | Inr [a] \<Rightarrow> Inl (ValueError [PStr ''not enough values to unpack (expected 3, got 1)''])
    | Inr [a, b] \<Rightarrow> Inl (ValueError [PStr ''not enough values to unpack (expected 3, got 2)''])
    | Inr [a, b, c] \<Rightarrow> Inr (a, b, c)
    | Inr _ \<Rightarrow> Inl (ValueError [PStr ''too many values to unpack (expected 3)'']))"

text \<open>\<^verbatim>\<open>needle in hay\<close> on two strings.\<close>

fun contains :: "string \<Rightarrow> string \<Rightarrow> bool" where
  "contains needle [] = (needle = [])"
| "contains needle (c # cs) = (take (length needle) (c # cs) = needle \<or> contains needle cs)"

text \<open>
  \<^verbatim>\<open>d.update(other)\<close>: keys keep their place, new keys go to the end. The module only
  passes dictionaries; any other argument is answered by \<^verbatim>\<open>TypeError\<close>.
\<close>

fun dict_update :: "pyval \<Rightarrow> pyval \<Rightarrow> exn + pyval" where
  "dict_update (PDict d) (PDict other) = Inr (PDict (fold (\<lambda>kv. AList.update (fst kv) (snd kv)) other d))"
| "dict_update d other = Inl TypeError"

text \<open>\<^verbatim>\<open>a + b\<close> where \<open>b\<close> is a string.\<close>

fun str_add :: "pyval \<Rightarrow> string \<Rightarrow> exn + pyval" where
  "str_add (PStr a) b = Inr (PStr (a @ b))"
| "str_add v b = Inl TypeError"

text \<open>\<^verbatim>\<open>self.context.k.a\<close>\<close>

definition ctx_attr :: "string \<Rightarrow> string \<Rightarrow> pyval M" where
  "ctx_attr k a = bindM (ctx_get k) (\<lambda>v. liftM (getattr v a))"

section \<open>The module\<close>

definition PG_NAME :: string where "PG_NAME = ''Process Sensor Data''"
definition CONSUMER_GROUP_ID :: string where "CONSUMER_GROUP_ID = ''iot-sensor-consumer''"
definition PRODUCER_CLIENT_ID :: string where "PRODUCER_CLIENT_ID = ''nifi-sensor-data''"
definition SCHEMA_URI :: string where
  "SCHEMA_URI = ''http://raw.githubusercontent.com/cloudera-labs/edge2ai-workshop/master/sensor.avsc''"

subsection \<open>skip_cdsw, read_in_schema\<close>

definition skip_cdsw :: "pyval M" where
  "skip_cdsw =
     bindM get_environ (\<lambda>env.
     bindM (returnM (''SKIP_CDSW'' \<in> dom env)) (\<lambda>flag.
     bindM (log_debug (''SKIP_CDSW='' @ (if flag then ''True'' else ''False'')) []) (\<lambda>_.
     returnM (PBool flag))))"

text \<open>
  \<^verbatim>\<open>open(p).read()\<close> is the call \<^verbatim>\<open>open\<close>, which answers a file object, and the call
  \<^verbatim>\<open>read\<close> on it. The \<^verbatim>\<open>ValueError\<close> is built from two arguments (the message is not
  formatted with the status code, both are the exception's arguments).
\<close>

definition read_in_schema :: "string \<Rightarrow> pyval M" where
  "read_in_schema uri =
     bindM get_environ (\<lambda>env.
     bindM (case env ''SCHEMA_FILE'' of
              None \<Rightarrow> returnM None
            | Some p \<Rightarrow> bindM (callM ''os.path.exists'' [PStr p] []) (\<lambda>b.
                         returnM (if truthy b then Some p else None))) (\<lambda>schema_file.
     case schema_file of
       Some p \<Rightarrow>
         bindM (callM ''open'' [PStr p] []) (\<lambda>f.
         callM ''read'' [f] [])
     | None \<Rightarrow>
         bindM (callM ''requests.get'' [PStr uri] []) (\<lambda>r.
         bindM (liftM (getattr r ''status_code'')) (\<lambda>sc.
         if sc = PInt 200 then liftM (getattr r ''text'')
         else bindM (liftM (getattr r ''status_code'')) (\<lambda>sc'.
              raiseM (ValueError [PStr ''Unable to retrieve schema from URI, response was %s'', sc']))))))"

subsection \<open>before_setup, after_setup\<close>

definition before_setup :: "unit M" where
  "before_setup =
     bindM (callM ''nf.set_environment'' [] []) (\<lambda>env3.
     bindM (liftM (unpack3 env3)) (\<lambda>t.
     bindM (ctx_set ''root_pg'' (fst t)) (\<lambda>_.
     bindM (ctx_set ''efm_pg_id'' (fst (snd t))) (\<lambda>_.
     bindM (ctx_set ''flow_id'' (snd (snd t))) (\<lambda>_.
     bindM skip_cdsw (\<lambda>flag.
     ctx_set ''skip_cdsw'' flag))))))"

definition after_setup :: "unit M" where
  "after_setup = bindM (callM ''nf.wait_for_data'' [PStr PG_NAME] []) (\<lambda>_. returnM ())"

subsection \<open>teardown\<close>

text \<open>
  The body of the \<^verbatim>\<open>for\<close> loop (lines 67 to 73): the \<^verbatim>\<open>try\<close> block and its handler.
  \<open>failed\<close> is the local variable of the enclosing \<^verbatim>\<open>while\<close> body; the value returned
  is its value after the statement. The handler catches every \<^verbatim>\<open>ApiException\<close>; it has
  no \<^verbatim>\<open>else\<close> and no \<^verbatim>\<open>raise\<close>. \<^verbatim>\<open>'is referenced by' in exc.body\<close> raises \<^verbatim>\<open>TypeError\<close>
  when the body is \<^verbatim>\<open>None\<close>.
\<close>

definition teardown_for_body :: "pyval \<Rightarrow> bool \<Rightarrow> bool M" where
  "teardown_for_body controller failed =
     try_except
       (bindM (callM ''canvas.schedule_controller'' [controller, PBool False] []) (\<lambda>_.
        bindM (liftM (getattr controller ''component'')) (\<lambda>comp.
        bindM (liftM (getattr comp ''name'')) (\<lambda>name.
        bindM (log_debug ''Controller %s stopped.'' [name]) (\<lambda>_.
        returnM failed)))))
       (\<lambda>exc. case exc of
          ApiException st bd \<Rightarrow>
            (if st = Some 409 then
               (case bd of
                  None \<Rightarrow> raiseM TypeError
                | Some b \<Rightarrow>
                    if contains ''is referenced by'' b then
                      bindM (liftM (getattr controller ''component'')) (\<lambda>comp.
                      bindM (liftM (getattr comp ''name'')) (\<lambda>name.
                      bindM (log_debug ''Controller %s failed to stop. Will retry later.'' [name]) (\<lambda>_.
                      returnM True)))
                    else returnM failed)
             else returnM failed)
        | _ \<Rightarrow> raiseM exc)"

text \<open>The \<^verbatim>\<open>for\<close> loop over the controllers (line 66).\<close>

fun teardown_for :: "pyval list \<Rightarrow> bool \<Rightarrow> bool M" where
  "teardown_for [] failed = returnM failed"
| "teardown_for (controller # rest) failed =
     bindM (teardown_for_body controller failed) (teardown_for rest)"

text \<open>One pass of the \<^verbatim>\<open>while\<close> body (lines 65 to 73); its result is \<open>failed\<close>.\<close>

definition teardown_pass :: "pyval \<Rightarrow> bool M" where
  "teardown_pass root_pg =
     bindM (liftM (getattr root_pg ''id'')) (\<lambda>rid.
     bindM (callM ''canvas.list_all_controllers'' [rid] []) (\<lambda>cs.
     bindM (liftM (iter_py cs)) (\<lambda>controllers.
     teardown_for controllers False)))"

text \<open>The \<^verbatim>\<open>while True\<close> loop (lines 64 to 75). \<open>None\<close> is the loop that never exits.\<close>

partial_function (option) teardown_while :: "pyval \<Rightarrow> world \<Rightarrow> state \<Rightarrow> ((exn + unit) \<times> state) option" where
  "teardown_while root_pg w s =
     (case teardown_pass root_pg w s of
        (Inl e, s') \<Rightarrow> Some (Inl e, s')
      | (Inr failed, s') \<Rightarrow> if \<not> failed then Some (Inr (), s') else teardown_while root_pg w s')"

text \<open>Lines 61 to 63: the statements before the loop. The result is \<open>(root_pg, flow_id)\<close>.\<close>

definition teardown_begin :: "(pyval \<times> pyval) M" where
  "teardown_begin =
     bindM (callM ''nf.set_environment'' [] []) (\<lambda>env3.
     bindM (liftM (unpack3 env3)) (\<lambda>t.
     bindM (liftM (getattr (fst t) ''id'')) (\<lambda>rid.
     bindM (callM ''canvas.schedule_process_group'' [rid, PBool False] []) (\<lambda>_.
     returnM (fst t, snd (snd t))))))"

text \<open>Lines 77 to 85: the statements after the loop.\<close>

definition teardown_finish :: "pyval \<Rightarrow> pyval \<Rightarrow> unit M" where
  "teardown_finish root_pg flow_id =
     bindM (callM ''nf.delete_all'' [root_pg] []) (\<lambda>_.
     bindM (callM ''efm.delete_all'' [flow_id] []) (\<lambda>_.
     bindM (callM ''schreg.delete_all_schemas'' [] []) (\<lambda>_.
     bindM (callM ''versioning.get_registry_client'' [PStr ''NiFi Registry''] []) (\<lambda>reg_client.
     bindM (if truthy reg_client
            then bindM (callM ''versioning.delete_registry_client'' [reg_client] []) (\<lambda>_. returnM ())
            else returnM ()) (\<lambda>_.
     bindM (callM ''nifireg.delete_flows'' [PStr ''SensorFlows''] []) (\<lambda>_.
     bindM (callM ''kudu.drop_table'' [] []) (\<lambda>_.
     bindM (callM ''cdsw.delete_all_model_api_keys'' [] []) (\<lambda>_.
     returnM ()))))))))"

definition teardown :: "world \<Rightarrow> state \<Rightarrow> ((exn + unit) \<times> state) option" where
  "teardown w s =
     (case teardown_begin w s of
        (Inl e, s1) \<Rightarrow> Some (Inl e, s1)
      | (Inr (root_pg, flow_id), s1) \<Rightarrow>
          (case teardown_while root_pg w s1 of
             None \<Rightarrow> None
           | Some (Inl e, s2) \<Rightarrow> Some (Inl e, s2)
           | Some (Inr u, s2) \<Rightarrow> Some (teardown_finish root_pg flow_id w s2)))"

subsection \<open>lab1_register_schema\<close>

definition lab1_register_schema :: "unit M" where
  "lab1_register_schema =
     bindM (read_in_schema SCHEMA_URI) (\<lambda>schema.
     bindM (callM ''schreg.create_schema''
              [PStr ''SensorReading'', PStr ''Schema for the data generated by the IoT sensors'', schema] []) (\<lambda>_.
     returnM ()))"

subsection \<open>lab2_nifi_flow\<close>

text \<open>
  The function is modelled section by section, along the comments that divide it in the
  source; \<open>lab2_nifi_flow\<close> runs the sections in order.
\<close>

text \<open>Lines 93 to 96: create a bucket in NiFi Registry.\<close>

definition lab2_create_bucket :: "unit M" where
  "lab2_create_bucket =
     bindM (callM ''versioning.get_registry_bucket'' [PStr ''SensorFlows''] []) (\<lambda>b.
     bindM (ctx_set ''sensor_bucket'' b) (\<lambda>_.
     bindM (ctx_get ''sensor_bucket'') (\<lambda>sb.
     if \<not> truthy sb then
       bindM (callM ''versioning.create_registry_bucket'' [PStr ''SensorFlows''] []) (\<lambda>nb.
       ctx_set ''sensor_bucket'' nb)
     else returnM ())))"

text \<open>Lines 98 to 105: create the NiFi process group.\<close>

definition lab2_create_process_group :: "unit M" where
  "lab2_create_process_group =
     bindM (callM ''nifireg.get_url'' [] []) (\<lambda>url.
     bindM (callM ''versioning.create_registry_client''
              [PStr ''NiFi Registry'', url, PStr ''The registry...''] []) (\<lambda>rc.
     bindM (ctx_set ''reg_client'' rc) (\<lambda>_.
     bindM (ctx_get ''root_pg'') (\<lambda>root_pg.
     bindM (callM ''canvas.create_process_group''
              [root_pg, PStr PG_NAME, PTuple [PInt 330, PInt 350]] []) (\<lambda>pg.
     bindM (ctx_set ''sensor_pg'' pg) (\<lambda>_.
     bindM (ctx_get ''sensor_pg'') (\<lambda>sensor_pg.
     bindM (ctx_get ''reg_client'') (\<lambda>reg_client.
     bindM (ctx_get ''sensor_bucket'') (\<lambda>sensor_bucket.
     bindM get_run_id (\<lambda>rid.
     bindM (callM ''nifireg.save_flow_ver'' [sensor_pg, reg_client, sensor_bucket]
              [(''flow_name'', PStr ''SensorProcessGroup''),
               (''comment'', PStr (''Enabled version control - '' @ rid))]) (\<lambda>flow.
     ctx_set ''sensor_flow'' flow)))))))))))"

definition ssl_svc_name :: string where
  "ssl_svc_name = ''Default NiFi SSL Context Service''"

text \<open>Lines 107 to 132: update the default SSL context controller service.\<close>

definition lab2_update_ssl_context :: "unit M" where
  "lab2_update_ssl_context =
     bindM (callM ''is_tls_enabled'' [] []) (\<lambda>tls.
     if truthy tls then
       bindM (callM ''get_the_pwd'' [] []) (\<lambda>pwd1.
       bindM (callM ''get_the_pwd'' [] []) (\<lambda>pwd2.
       bindM (callM ''get_the_pwd'' [] []) (\<lambda>pwd3.
       bindM (returnM (PDict
                [(''SSL Protocol'', PStr ''TLS''),
                 (''Truststore Type'', PStr ''JKS''),
                 (''Truststore Filename'', PStr ''/opt/cloudera/security/jks/truststore.jks''),
                 (''Truststore Password'', pwd1),
                 (''Keystore Type'', PStr ''JKS''),
                 (''Keystore Filename'', PStr ''/opt/cloudera/security/jks/keystore.jks''),
                 (''Keystore Password'', pwd2),
                 (''key-password'', pwd3)])) (\<lambda>props.
       bindM (callM ''canvas.get_controller'' [PStr ssl_svc_name, PStr ''name''] []) (\<lambda>svc.
       bindM (ctx_set ''ssl_svc'' svc) (\<lambda>_.
       bindM (ctx_get ''ssl_svc'') (\<lambda>found.
       if truthy found then
         bindM (ctx_get ''ssl_svc'') (\<lambda>svc1.
         bindM (callM ''canvas.schedule_controller'' [svc1, PBool False] []) (\<lambda>_.
         bindM (callM ''canvas.get_controller'' [PStr ssl_svc_name, PStr ''name''] []) (\<lambda>svc2.
         bindM (ctx_set ''ssl_svc'' svc2) (\<lambda>_.
         bindM (ctx_get ''ssl_svc'') (\<lambda>svc3.
         bindM (callM ''nifi.ControllerServiceDTO'' [] [(''properties'', props)]) (\<lambda>dto.
         bindM (callM ''canvas.update_controller'' [svc3, dto] []) (\<lambda>_.
         bindM (callM ''canvas.get_controller'' [PStr ssl_svc_name, PStr ''name''] []) (\<lambda>svc4.
         bindM (ctx_set ''ssl_svc'' svc4) (\<lambda>_.
         bindM (ctx_get ''ssl_svc'') (\<lambda>svc5.
         bindM (callM ''canvas.schedule_controller'' [svc5, PBool True] []) (\<lambda>_.
         returnM ())))))))))))
       else
         bindM (ctx_get ''root_pg'') (\<lambda>root_pg.
         bindM (callM ''nf.create_controller''
                  [root_pg, PStr ''org.apache.nifi.ssl.StandardRestrictedSSLContextService'',
                   props, PBool True]
                  [(''name'', PStr ssl_svc_name)]) (\<lambda>created.
         ctx_set ''keytab_svc'' created)))))))))
     else returnM ())"

text \<open>Lines 134 to 184: create the controller services.\<close>

definition lab2_create_controller_services :: "unit M" where
  "lab2_create_controller_services =
     bindM (callM ''is_tls_enabled'' [] []) (\<lambda>tls.
     bindM (if truthy tls then
              bindM (callM ''canvas.get_controller'' [PStr ssl_svc_name, PStr ''name''] []) (\<lambda>svc.
              bindM (ctx_set ''ssl_svc'' svc) (\<lambda>_.
              bindM (returnM (PDict
                       [(''Kerberos Keytab'', PStr ''/keytabs/admin.keytab''),
                        (''Kerberos Principal'', PStr ''admin'')])) (\<lambda>props.
              bindM (ctx_get ''sensor_pg'') (\<lambda>sensor_pg.
              bindM (callM ''nf.create_controller''
                       [sensor_pg, PStr ''org.apache.nifi.kerberos.KeytabCredentialsService'',
                        props, PBool True] []) (\<lambda>created.
              ctx_set ''keytab_svc'' created)))))
            else
              bindM (ctx_set ''ssl_svc'' PNone) (\<lambda>_.
              ctx_set ''keytab_svc'' PNone)) (\<lambda>_.
     bindM (callM ''schreg.get_api_url'' [] []) (\<lambda>url.
     bindM (returnM (PDict [(''url'', url)])) (\<lambda>props0.
     bindM (callM ''is_tls_enabled'' [] []) (\<lambda>tls2.
     bindM (if truthy tls2 then
              bindM (ctx_attr ''keytab_svc'' ''id'') (\<lambda>keytab_id.
              bindM (ctx_attr ''ssl_svc'' ''id'') (\<lambda>ssl_id.
              liftM (dict_update props0 (PDict
                       [(''kerberos-credentials-service'', keytab_id),
                        (''ssl-context-service'', ssl_id)]))))
            else returnM props0) (\<lambda>props.
     bindM (ctx_get ''sensor_pg'') (\<lambda>sensor_pg.
     bindM (callM ''nf.create_controller''
              [sensor_pg, PStr ''org.apache.nifi.schemaregistry.hortonworks.HortonworksSchemaRegistry'',
               props, PBool True] []) (\<lambda>sr.
     bindM (ctx_set ''sr_svc'' sr) (\<lambda>_.
     bindM (ctx_get ''sensor_pg'') (\<lambda>sensor_pg1.
     bindM (ctx_attr ''sr_svc'' ''id'') (\<lambda>sr_id1.
     bindM (callM ''nf.create_controller''
              [sensor_pg1, PStr ''org.apache.nifi.json.JsonTreeReader'',
               PDict [(''schema-access-strategy'', PStr ''schema-name''),
                      (''schema-registry'', sr_id1)],
               PBool True] []) (\<lambda>json_reader.
     bindM (ctx_set ''json_reader_svc'' json_reader) (\<lambda>_.
     bindM (ctx_get ''sensor_pg'') (\<lambda>sensor_pg2.
     bindM (ctx_attr ''sr_svc'' ''id'') (\<lambda>sr_id2.
     bindM (callM ''nf.create_controller''
              [sensor_pg2, PStr ''org.apache.nifi.json.JsonRecordSetWriter'',
               PDict [(''schema-access-strategy'', PStr ''schema-name''),
                      (''schema-registry'', sr_id2),
                      (''Schema Write Strategy'', PStr ''hwx-schema-ref-attributes'')],
               PBool True] []) (\<lambda>json_writer.
     bindM (ctx_set ''json_writer_svc'' json_writer) (\<lambda>_.
     bindM (ctx_get ''sensor_pg'') (\<lambda>sensor_pg3.
     bindM (ctx_attr ''sr_svc'' ''id'') (\<lambda>sr_id3.
     bindM (callM ''nf.create_controller''
              [sensor_pg3, PStr ''org.apache.nifi.avro.AvroRecordSetWriter'',
               PDict [(''schema-access-strategy'', PStr ''schema-name''),
                      (''schema-registry'', sr_id3),
                      (''Schema Write Strategy'', PStr ''hwx-content-encoded-schema'')],
               PBool True] []) (\<lambda>avro_writer.
     ctx_set ''avro_writer_svc'' avro_writer))))))))))))))))))))"

definition publish_kafka_types :: pyval where
  "publish_kafka_types = PList
     [PStr ''org.apache.nifi.processors.kafka.pubsub.PublishKafkaRecord_2_6'',
      PStr ''org.apache.nifi.processors.kafka.pubsub.PublishKafkaRecord_2_0'']"

text \<open>Lines 186 to 217: create the flow. The result is the local \<open>sensor_port\<close>.\<close>

definition lab2_create_flow :: "pyval M" where
  "lab2_create_flow =
     bindM (ctx_attr ''sensor_pg'' ''id'') (\<lambda>pg_id.
     bindM (callM ''canvas.create_port''
              [pg_id, PStr ''INPUT_PORT'', PStr ''Sensor Data'', PStr ''STOPPED'',
               PTuple [PInt 0, PInt 0]] []) (\<lambda>sensor_port.
     bindM (ctx_get ''sensor_pg'') (\<lambda>sensor_pg.
     bindM (callM ''nf.create_processor''
              [sensor_pg, PStr ''Set Schema Name'',
               PStr ''org.apache.nifi.processors.attributes.UpdateAttribute'',
               PTuple [PInt 0, PInt 100],
               PDict [(''properties'', PDict [(''schema.name'', PStr ''SensorReading'')])]] []) (\<lambda>upd_attr.
     bindM (callM ''canvas.create_connection'' [sensor_port, upd_attr] []) (\<lambda>_.
     bindM (ctx_attr ''json_reader_svc'' ''id'') (\<lambda>reader_id.
     bindM (ctx_attr ''json_writer_svc'' ''id'') (\<lambda>writer_id.
     bindM (returnM (PDict
              [(''topic'', PStr ''iot''),
               (''record-reader'', reader_id),
               (''record-writer'', writer_id)])) (\<lambda>props0.
     bindM ctx_obj (\<lambda>context.
     bindM (callM ''kafka.get_common_client_properties''
              [context, PStr ''producer'', PStr CONSUMER_GROUP_ID, PStr PRODUCER_CLIENT_ID] []) (\<lambda>common.
     bindM (liftM (dict_update props0 common)) (\<lambda>props.
     bindM (ctx_get ''sensor_pg'') (\<lambda>sensor_pg1.
     bindM (callM ''nf.create_processor''
              [sensor_pg1, PStr ''Publish to Kafka topic: iot'', publish_kafka_types,
               PTuple [PInt 0, PInt 300],
               PDict [(''properties'', props),
                      (''autoTerminatedRelationships'', PList [PStr ''success''])]] []) (\<lambda>pub_kafka.
     bindM (callM ''canvas.create_connection'' [upd_attr, pub_kafka, PList [PStr ''success'']] []) (\<lambda>_.
     bindM (ctx_attr ''sensor_pg'' ''id'') (\<lambda>pg_id1.
     bindM (callM ''nf.create_funnel'' [pg_id1, PTuple [PInt 600, PInt 343]] []) (\<lambda>fail_funnel.
     bindM (callM ''canvas.create_connection'' [pub_kafka, fail_funnel, PList [PStr ''failure'']] []) (\<lambda>_.
     returnM sensor_port)))))))))))))))))"

text \<open>Lines 219 to 229: commit the changes, start the flow, connect the gateway port.\<close>

definition lab2_commit_and_start :: "pyval \<Rightarrow> unit M" where
  "lab2_commit_and_start sensor_port =
     bindM (ctx_get ''sensor_pg'') (\<lambda>sensor_pg.
     bindM (ctx_get ''reg_client'') (\<lambda>reg_client.
     bindM (ctx_get ''sensor_bucket'') (\<lambda>sensor_bucket.
     bindM (ctx_attr ''sensor_flow'' ''version_control_information'') (\<lambda>vci.
     bindM (liftM (getattr vci ''flow_id'')) (\<lambda>flow_id.
     bindM get_run_id (\<lambda>rid.
     bindM (callM ''nifireg.save_flow_ver'' [sensor_pg, reg_client, sensor_bucket]
              [(''flow_id'', flow_id), (''comment'', PStr (''First version - '' @ rid))]) (\<lambda>_.
     bindM (ctx_attr ''root_pg'' ''id'') (\<lambda>root_id.
     bindM (callM ''canvas.schedule_process_group'' [root_id, PBool True] []) (\<lambda>_.
     bindM (ctx_get ''from_gw'') (\<lambda>from_gw.
     bindM (ctx_get ''temp_funnel'') (\<lambda>temp_funnel.
     bindM (callM ''nf.update_connection'' [from_gw, temp_funnel, sensor_port] []) (\<lambda>_.
     bindM (ctx_attr ''root_pg'' ''id'') (\<lambda>root_id1.
     bindM (callM ''canvas.schedule_components'' [root_id1, PBool True, PList [sensor_port]] []) (\<lambda>_.
     returnM ()))))))))))))))"

definition lab2_nifi_flow :: "unit M" where
  "lab2_nifi_flow =
     bindM lab2_create_bucket (\<lambda>_.
     bindM lab2_create_process_group (\<lambda>_.
     bindM lab2_update_ssl_context (\<lambda>_.
     bindM lab2_create_controller_services (\<lambda>_.
     bindM lab2_create_flow (\<lambda>sensor_port.
     lab2_commit_and_start sensor_port)))))"

subsection \<open>lab4_rest_and_kudu\<close>

text \<open>Lines 232 to 234: prepare the Impala/Kudu table. The result is \<open>kudu_table_name\<close>.\<close>

definition lab4_prepare_table :: "pyval M" where
  "lab4_prepare_table =
     bindM (callM ''kudu.create_table'' [] []) (\<lambda>_.
     callM ''kudu.get_kudu_table_name'' [PStr ''default'', PStr ''sensors''] [])"

text \<open>Lines 236 to 241: set the required variables.\<close>

definition lab4_set_variables :: "unit M" where
  "lab4_set_variables =
     bindM (ctx_get ''skip_cdsw'') (\<lambda>skip.
     if \<not> truthy skip then
       bindM (ctx_get ''sensor_pg'') (\<lambda>sensor_pg.
       bindM (callM ''cdsw.get_model_access_key'' [] []) (\<lambda>access_key.
       bindM (callM ''canvas.update_variable_registry''
                [sensor_pg, PList [PTuple [PStr ''cdsw.access.key'', access_key]]] []) (\<lambda>_.
       bindM (ctx_get ''sensor_pg'') (\<lambda>sensor_pg1.
       bindM (callM ''cdsw.create_model_api_key'' [] []) (\<lambda>api_key.
       bindM (callM ''canvas.update_variable_registry''
                [sensor_pg1, PList [PTuple [PStr ''cdsw.model.api.key'', api_key]]] []) (\<lambda>_.
       returnM ()))))))
     else returnM ())"

text \<open>Lines 243 to 266: create the controllers. The result is \<open>rest_lookup_svc\<close>.\<close>

definition lab4_create_controllers :: "pyval M" where
  "lab4_create_controllers =
     bindM (ctx_get ''sensor_pg'') (\<lambda>sensor_pg.
     bindM (ctx_attr ''sr_svc'' ''id'') (\<lambda>sr_id.
     bindM (callM ''nf.create_controller''
              [sensor_pg, PStr ''org.apache.nifi.json.JsonTreeReader'',
               PDict [(''schema-access-strategy'', PStr ''hwx-schema-ref-attributes''),
                      (''schema-registry'', sr_id)],
               PBool True]
              [(''name'', PStr ''JsonTreeReader - With schema identifier'')]) (\<lambda>reader.
     bindM (ctx_set ''json_reader_with_schema_svc'' reader) (\<lambda>_.
     bindM (callM ''cdsw.get_model_endpoint_url'' [] []) (\<lambda>url.
     bindM (ctx_attr ''json_reader_svc'' ''id'') (\<lambda>reader_id.
     bindM (returnM (PDict
              [(''rest-lookup-url'', url),
               (''rest-lookup-record-reader'', reader_id),
               (''rest-lookup-record-path'', PStr ''/response''),
               (''Authorization'', PStr ''Bearer ${cdsw.model.api.key}'')])) (\<lambda>props0.
     bindM (callM ''is_tls_enabled'' [] []) (\<lambda>tls.
     bindM (if truthy tls then
              bindM (ctx_attr ''ssl_svc'' ''id'') (\<lambda>ssl_id.
              liftM (dict_update props0 (PDict [(''rest-lookup-ssl-context-service'', ssl_id)])))
            else returnM props0) (\<lambda>props.
     bindM (ctx_get ''sensor_pg'') (\<lambda>sensor_pg1.
     callM ''nf.create_controller''
       [sensor_pg1, PStr ''org.apache.nifi.lookup.RestLookupService'', props, PBool True] []))))))))))"

definition consume_kafka_types :: pyval where
  "consume_kafka_types = PList
     [PStr ''org.apache.nifi.processors.kafka.pubsub.ConsumeKafkaRecord_2_6'',
      PStr ''org.apache.nifi.processors.kafka.pubsub.ConsumeKafkaRecord_2_0'']"

text \<open>The three string constants of the \<^verbatim>\<open>LookupRecord\<close> processor (lines 298 to 306).\<close>

definition mime_type_expr :: string where
  \<open>mime_type_expr = ''toString('application/json', 'UTF-8')''\<close>

definition request_body_expr :: string where
  \<open>request_body_expr =
     ''concat('{"accessKey":"', '${cdsw.access.key}', '' @
     '''","request":{"feature":"', /sensor_0, ', ', '' @
     ''/sensor_1, ', ', /sensor_2, ', ', /sensor_3, ', ', '' @
     ''/sensor_4, ', ', /sensor_5, ', ', /sensor_6, ', ', '' @
     ''/sensor_7, ', ', /sensor_8, ', ', /sensor_9, ', ', '' @
     ''/sensor_10, ', ', /sensor_11, '"}}')''\<close>

definition request_method_expr :: string where
  \<open>request_method_expr = ''toString('post', 'UTF-8')''\<close>

text \<open>Line 269: the funnel that collects the failures.\<close>

definition lab4_fail_funnel :: "pyval M" where
  "lab4_fail_funnel =
     bindM (ctx_attr ''sensor_pg'' ''id'') (\<lambda>pg_id.
     bindM (callM ''nf.create_funnel'' [pg_id, PTuple [PInt 1400, PInt 340]] []) (\<lambda>fail_funnel.
     returnM fail_funnel))"

text \<open>Lines 271 to 285: the processor that consumes the topic \<^verbatim>\<open>iot\<close>.\<close>

definition lab4_consume_kafka :: "pyval \<Rightarrow> pyval M" where
  "lab4_consume_kafka fail_funnel =
     bindM (ctx_attr ''json_reader_with_schema_svc'' ''id'') (\<lambda>c_reader.
     bindM (ctx_attr ''json_writer_svc'' ''id'') (\<lambda>c_writer.
     bindM (returnM (PDict
              [(''topic'', PStr ''iot''),
               (''topic_type'', PStr ''names''),
               (''record-reader'', c_reader),
               (''record-writer'', c_writer)])) (\<lambda>c_props0.
     bindM ctx_obj (\<lambda>context.
     bindM (callM ''kafka.get_common_client_properties''
              [context, PStr ''consumer'', PStr CONSUMER_GROUP_ID, PStr PRODUCER_CLIENT_ID] []) (\<lambda>c_common.
     bindM (liftM (dict_update c_props0 c_common)) (\<lambda>c_props.
     bindM (ctx_get ''sensor_pg'') (\<lambda>sensor_pg.
     bindM (callM ''nf.create_processor''
              [sensor_pg, PStr ''Consume Kafka iot messages'', consume_kafka_types,
               PTuple [PInt 700, PInt 0],
               PDict [(''properties'', c_props)]] []) (\<lambda>consume_kafka.
     bindM (callM ''canvas.create_connection''
              [consume_kafka, fail_funnel, PList [PStr ''parse.failure'']] []) (\<lambda>_.
     returnM consume_kafka)))))))))"

text \<open>Lines 287 to 310: the \<^verbatim>\<open>LookupRecord\<close> processor.\<close>

definition lab4_predict :: "pyval \<Rightarrow> pyval \<Rightarrow> pyval \<Rightarrow> pyval M" where
  "lab4_predict rest_lookup_svc fail_funnel consume_kafka =
     bindM (ctx_get ''sensor_pg'') (\<lambda>sensor_pg1.
     bindM (ctx_attr ''json_reader_with_schema_svc'' ''id'') (\<lambda>p_reader.
     bindM (ctx_attr ''json_writer_svc'' ''id'') (\<lambda>p_writer.
     bindM (liftM (getattr rest_lookup_svc ''id'')) (\<lambda>lookup_id.
     bindM (callM ''nf.create_processor''
              [sensor_pg1, PStr ''Predict machine health'',
               PStr ''org.apache.nifi.processors.standard.LookupRecord'',
               PTuple [PInt 700, PInt 200],
               PDict [(''properties'', PDict
                 [(''record-reader'', p_reader),
                  (''record-writer'', p_writer),
                  (''lookup-service'', lookup_id),
                  (''result-record-path'', PStr ''/response''),
                  (''routing-strategy'', PStr ''route-to-success''),
                  (''result-contents'', PStr ''insert-entire-record''),
                  (''mime.type'', PStr mime_type_expr),
                  (''request.body'', PStr request_body_expr),
                  (''request.method'', PStr request_method_expr)])]] []) (\<lambda>predict.
     bindM (callM ''canvas.create_connection'' [predict, fail_funnel, PList [PStr ''failure'']] []) (\<lambda>_.
     bindM (callM ''canvas.create_connection'' [consume_kafka, predict, PList [PStr ''success'']] []) (\<lambda>_.
     returnM predict)))))))"

text \<open>Lines 312 to 324: the \<^verbatim>\<open>UpdateRecord\<close> processor.\<close>

definition lab4_update_health :: "pyval \<Rightarrow> pyval \<Rightarrow> pyval M" where
  "lab4_update_health fail_funnel predict =
     bindM (ctx_get ''sensor_pg'') (\<lambda>sensor_pg2.
     bindM (ctx_attr ''json_reader_with_schema_svc'' ''id'') (\<lambda>u_reader.
     bindM (ctx_attr ''json_writer_svc'' ''id'') (\<lambda>u_writer.
     bindM (callM ''nf.create_processor''
              [sensor_pg2, PStr ''Update health flag'',
               PStr ''org.apache.nifi.processors.standard.UpdateRecord'',
               PTuple [PInt 700, PInt 400],
               PDict [(''properties'', PDict
                 [(''record-reader'', u_reader),
                  (''record-writer'', u_writer),
                  (''replacement-value-strategy'', PStr ''record-path-value''),
                  (''/is_healthy'', PStr ''/response/result'')])]] []) (\<lambda>update_health.
     bindM (callM ''canvas.create_connection'' [update_health, fail_funnel, PList [PStr ''failure'']] []) (\<lambda>_.
     bindM (callM ''canvas.create_connection'' [predict, update_health, PList [PStr ''success'']] []) (\<lambda>_.
     returnM update_health))))))"

text \<open>Lines 326 to 339: the \<^verbatim>\<open>PutKudu\<close> processor.\<close>

definition lab4_write_kudu :: "pyval \<Rightarrow> pyval \<Rightarrow> pyval \<Rightarrow> pyval M" where
  "lab4_write_kudu kudu_table_name fail_funnel update_health =
     bindM (ctx_get ''sensor_pg'') (\<lambda>sensor_pg3.
     bindM (callM ''get_hostname'' [] []) (\<lambda>hostname.
     bindM (liftM (str_add hostname '':7051'')) (\<lambda>masters.
     bindM (ctx_attr ''json_reader_with_schema_svc'' ''id'') (\<lambda>k_reader.
     bindM (callM ''is_tls_enabled'' [] []) (\<lambda>tls.
     bindM (if truthy tls then ctx_attr ''keytab_svc'' ''id'' else returnM PNone) (\<lambda>keytab.
     bindM (callM ''nf.create_processor''
              [sensor_pg3, PStr ''Write to Kudu'', PStr ''org.apache.nifi.processors.kudu.PutKudu'',
               PTuple [PInt 700, PInt 600],
               PDict [(''properties'', PDict
                 [(''Kudu Masters'', masters),
                  (''Table Name'', kudu_table_name),
                  (''record-reader'', k_reader),
                  (''kerberos-credentials-service'', keytab)])]] []) (\<lambda>write_kudu.
     bindM (callM ''canvas.create_connection'' [write_kudu, fail_funnel, PList [PStr ''failure'']] []) (\<lambda>_.
     bindM (callM ''canvas.create_connection'' [update_health, write_kudu, PList [PStr ''success'']] []) (\<lambda>_.
     returnM write_kudu)))))))))"

text \<open>Lines 341 to 357: the processor that publishes to \<^verbatim>\<open>iot_enriched\<close>.\<close>

definition lab4_publish_enriched :: "pyval \<Rightarrow> unit M" where
  "lab4_publish_enriched update_health =
     bindM (ctx_attr ''json_reader_with_schema_svc'' ''id'') (\<lambda>e_reader.
     bindM (ctx_attr ''json_writer_svc'' ''id'') (\<lambda>e_writer.
     bindM (returnM (PDict
              [(''topic'', PStr ''iot_enriched''),
               (''record-reader'', e_reader),
               (''record-writer'', e_writer)])) (\<lambda>e_props0.
     bindM ctx_obj (\<lambda>context1.
     bindM (callM ''kafka.get_common_client_properties''
              [context1, PStr ''producer'', PStr CONSUMER_GROUP_ID, PStr PRODUCER_CLIENT_ID] []) (\<lambda>e_common.
     bindM (liftM (dict_update e_props0 e_common)) (\<lambda>e_props.
     bindM (ctx_get ''sensor_pg'') (\<lambda>sensor_pg4.
     bindM (callM ''nf.create_processor''
              [sensor_pg4, PStr ''Publish to Kafka topic: iot_enriched'', publish_kafka_types,
               PTuple [PInt 300, PInt 600],
               PDict [(''properties'', e_props),
                      (''autoTerminatedRelationships'', PList [PStr ''success'', PStr ''failure''])]] []) (\<lambda>pub_kafka_enriched.
     bindM (callM ''canvas.create_connection''
              [update_health, pub_kafka_enriched, PList [PStr ''success'']] []) (\<lambda>_.
     returnM ())))))))))"

text \<open>Lines 359 to 375: the processor that publishes to \<^verbatim>\<open>iot_enriched_avro\<close>.\<close>

definition lab4_publish_enriched_avro :: "pyval \<Rightarrow> unit M" where
  "lab4_publish_enriched_avro update_health =
     bindM (ctx_attr ''json_reader_with_schema_svc'' ''id'') (\<lambda>a_reader.
     bindM (ctx_attr ''avro_writer_svc'' ''id'') (\<lambda>a_writer.
     bindM (returnM (PDict
              [(''topic'', PStr ''iot_enriched_avro''),
               (''record-reader'', a_reader),
               (''record-writer'', a_writer)])) (\<lambda>a_props0.
     bindM ctx_obj (\<lambda>context2.
     bindM (callM ''kafka.get_common_client_properties''
              [context2, PStr ''producer'', PStr CONSUMER_GROUP_ID, PStr PRODUCER_CLIENT_ID] []) (\<lambda>a_common.
     bindM (liftM (dict_update a_props0 a_common)) (\<lambda>a_props.
     bindM (ctx_get ''sensor_pg'') (\<lambda>sensor_pg5.
     bindM (callM ''nf.create_processor''
              [sensor_pg5, PStr ''Publish to Kafka topic: iot_enriched_avro'', publish_kafka_types,
               PTuple [PInt (- 100), PInt 600],
               PDict [(''properties'', a_props),
                      (''autoTerminatedRelationships'', PList [PStr ''success'', PStr ''failure''])]] []) (\<lambda>pub_kafka_enriched_avro.
     bindM (callM ''canvas.create_connection''
              [update_health, pub_kafka_enriched_avro, PList [PStr ''success'']] []) (\<lambda>_.
     returnM ())))))))))"

text \<open>Lines 377 to 388: the \<^verbatim>\<open>MonitorActivity\<close> processor.\<close>

definition lab4_monitor_activity :: "pyval \<Rightarrow> pyval \<Rightarrow> unit M" where
  "lab4_monitor_activity fail_funnel write_kudu =
     bindM (ctx_get ''sensor_pg'') (\<lambda>sensor_pg6.
     bindM (callM ''nf.create_processor''
              [sensor_pg6, PStr ''Monitor Activity'',
               PStr ''org.apache.nifi.processors.standard.MonitorActivity'',
               PTuple [PInt 700, PInt 800],
               PDict [(''properties'', PDict
                        [(''Threshold Duration'', PStr ''45 secs''),
                         (''Continually Send Messages'', PStr ''true'')]),
                      (''autoTerminatedRelationships'',
                        PList [PStr ''activity.restored'', PStr ''success''])]] []) (\<lambda>monitor_activity.
     bindM (callM ''canvas.create_connection''
              [monitor_activity, fail_funnel, PList [PStr ''inactive'']] []) (\<lambda>_.
     bindM (callM ''canvas.create_connection''
              [write_kudu, monitor_activity, PList [PStr ''success'']] []) (\<lambda>_.
     returnM ()))))"

text \<open>
  Lines 268 to 388: build the flow, from the locals \<open>kudu_table_name\<close> and
  \<open>rest_lookup_svc\<close>, one processor after the other.
\<close>

definition lab4_build_flow :: "pyval \<Rightarrow> pyval \<Rightarrow> unit M" where
  "lab4_build_flow kudu_table_name rest_lookup_svc =
     bindM lab4_fail_funnel (\<lambda>fail_funnel.
     bindM (lab4_consume_kafka fail_funnel) (\<lambda>consume_kafka.
     bindM (lab4_predict rest_lookup_svc fail_funnel consume_kafka) (\<lambda>predict.
     bindM (lab4_update_health fail_funnel predict) (\<lambda>update_health.
     bindM (lab4_write_kudu kudu_table_name fail_funnel update_health) (\<lambda>write_kudu.
     bindM (lab4_publish_enriched update_health) (\<lambda>_.
     bindM (lab4_publish_enriched_avro update_health) (\<lambda>_.
     lab4_monitor_activity fail_funnel write_kudu)))))))"

text \<open>Lines 390 to 396: version the flow and start everything.\<close>

definition lab4_version_and_start :: "unit M" where
  "lab4_version_and_start =
     bindM (ctx_get ''sensor_pg'') (\<lambda>sensor_pg.
     bindM (ctx_get ''reg_client'') (\<lambda>reg_client.
     bindM (ctx_get ''sensor_bucket'') (\<lambda>sensor_bucket.
     bindM (ctx_attr ''sensor_flow'' ''version_control_information'') (\<lambda>vci.
     bindM (liftM (getattr vci ''flow_id'')) (\<lambda>flow_id.
     bindM get_run_id (\<lambda>rid.
     bindM (callM ''nifireg.save_flow_ver'' [sensor_pg, reg_client, sensor_bucket]
              [(''flow_id'', flow_id), (''comment'', PStr (''Second version - '' @ rid))]) (\<lambda>_.
     bindM (ctx_attr ''root_pg'' ''id'') (\<lambda>root_id.
     bindM (callM ''canvas.schedule_process_group'' [root_id, PBool True] []) (\<lambda>_.
     returnM ())))))))))"

definition lab4_rest_and_kudu :: "unit M" where
  "lab4_rest_and_kudu =
     bindM lab4_prepare_table (\<lambda>kudu_table_name.
     bindM lab4_set_variables (\<lambda>_.
     bindM lab4_create_controllers (\<lambda>rest_lookup_svc.
     bindM (lab4_build_flow kudu_table_name rest_lookup_svc) (\<lambda>_.
     lab4_version_and_start))))"

section \<open>Vocabulary of the claims, and concrete runs\<close>

text \<open>
  The definitions below are not part of the module. They name what the claims speak
  about (the events a run adds to the trace, how an exception reaches the caller, the
  passes of the retry loop) and give the concrete environments on which the theorems
  are instantiated.
\<close>

fun answered :: "world \<Rightarrow> event list \<Rightarrow> event list \<Rightarrow> bool" where
  "answered w t [] = True"
| "answered w t (ev # evs) = (snd ev = w t (fst ev) \<and> answered w (t @ [ev]) evs)"

definition steps :: "(call \<Rightarrow> bool) \<Rightarrow> string set \<Rightarrow> world \<Rightarrow> state \<Rightarrow> state \<Rightarrow> bool" where
  "steps P K w s s' =
     ((\<exists>evs. trace s' = trace s @ evs \<and> answered w (trace s) evs \<and> (\<forall>ev\<in>set evs. P (fst ev))) \<and>
      (\<forall>k. k \<notin> K \<longrightarrow> map_of (ctxt s') k = map_of (ctxt s) k) \<and>
      environ s' = environ s \<and> run_id s' = run_id s)"

definition issues :: "(call \<Rightarrow> bool) \<Rightarrow> string set \<Rightarrow> 'a M \<Rightarrow> bool" where
  "issues P K m = (\<forall>w s. steps P K w s (snd (m w s)))"

definition stop_call :: "pyval \<Rightarrow> call" where
  "stop_call c = Call ''canvas.schedule_controller'' [c, PBool False] []"

definition is_conflict :: "response \<Rightarrow> bool" where
  "is_conflict r = (case r of
      Inl (ApiException st bd) \<Rightarrow>
        st = Some 409 \<and> (case bd of None \<Rightarrow> False | Some b \<Rightarrow> contains ''is referenced by'' b)
    | _ \<Rightarrow> False)"

definition swallowed :: "event \<Rightarrow> bool" where
  "swallowed ev = (fname (fst ev) = ''canvas.schedule_controller'' \<and>
     (case snd ev of Inl e \<Rightarrow> is_ApiException e | Inr v \<Rightarrow> False))"

definition quiet :: "event \<Rightarrow> bool" where
  "quiet ev = (\<not> isl (snd ev) \<or> swallowed ev)"

definition propagates :: "exn + 'a \<Rightarrow> event list \<Rightarrow> bool" where
  "propagates r evs = (case r of
      Inr x \<Rightarrow> list_all quiet evs
    | Inl e \<Rightarrow> (list_all quiet evs \<and> \<not> is_ApiException e) \<or>
        (evs \<noteq> [] \<and> list_all quiet (butlast evs) \<and> snd (last evs) = Inl e \<and> \<not> swallowed (last evs)))"

definition loop_call :: "call \<Rightarrow> bool" where
  "loop_call c = (fname c = ''canvas.list_all_controllers'' \<or> fname c = ''canvas.schedule_controller'')"

definition complete_pass :: "pyval \<Rightarrow> event list \<Rightarrow> bool" where
  "complete_pass root_pg evs = (case evs of
      [] \<Rightarrow> False
    | ev # rest \<Rightarrow>
        (case getattr root_pg ''id'' of
           Inl e \<Rightarrow> False
         | Inr rid \<Rightarrow>
             fst ev = Call ''canvas.list_all_controllers'' [rid] [] \<and>
             (case snd ev of
                Inl e \<Rightarrow> False
              | Inr v \<Rightarrow>
                  (case iter_py v of
                     Inl e \<Rightarrow> False
                   | Inr cs \<Rightarrow> map fst rest = map stop_call cs))))"

fun failed_passes :: "pyval \<Rightarrow> world \<Rightarrow> nat \<Rightarrow> state \<Rightarrow> state option" where
  "failed_passes root_pg w 0 s = Some s"
| "failed_passes root_pg w (Suc n) s =
     (case teardown_pass root_pg w s of
        (Inr True, s') \<Rightarrow> failed_passes root_pg w n s'
      | _ \<Rightarrow> None)"

definition last_pass :: "pyval \<Rightarrow> world \<Rightarrow> state \<Rightarrow> (exn + unit) \<times> state \<Rightarrow> bool" where
  "last_pass root_pg w sn y = (case teardown_pass root_pg w sn of
       (Inl e, s') \<Rightarrow> y = (Inl e, s')
     | (Inr failed, s') \<Rightarrow> \<not> failed \<and> y = (Inr (), s'))"

definition begin_call :: "call \<Rightarrow> bool" where
  "begin_call c = (fname c = ''nf.set_environment'' \<or> fname c = ''canvas.schedule_process_group'')"

definition strict :: "(call \<Rightarrow> bool) \<Rightarrow> 'a M \<Rightarrow> bool" where
  "strict P m = (\<forall>w s. \<exists>evs. trace (snd (m w s)) = trace s @ evs \<and> answered w (trace s) evs \<and>
      (\<forall>ev\<in>set evs. P (fst ev)) \<and> propagates (fst (m w s)) evs)"

definition finish_call :: "call \<Rightarrow> bool" where
  "finish_call c = (fname c \<in> {''nf.delete_all'', ''efm.delete_all'', ''schreg.delete_all_schemas'',
     ''versioning.get_registry_client'', ''versioning.delete_registry_client'',
     ''nifireg.delete_flows'', ''kudu.drop_table'', ''cdsw.delete_all_model_api_keys''})"

definition finish_calls :: "pyval \<Rightarrow> pyval \<Rightarrow> pyval \<Rightarrow> call list" where
  "finish_calls root_pg flow_id reg_client =
     [Call ''nf.delete_all'' [root_pg] [],
      Call ''efm.delete_all'' [flow_id] [],
      Call ''schreg.delete_all_schemas'' [] [],
      Call ''versioning.get_registry_client'' [PStr ''NiFi Registry''] []] @
     (if truthy reg_client then [Call ''versioning.delete_registry_client'' [reg_client] []] else []) @
     [Call ''nifireg.delete_flows'' [PStr ''SensorFlows''] [],
      Call ''kudu.drop_table'' [] [],
      Call ''cdsw.delete_all_model_api_keys'' [] []]"

definition teardown_call :: "call \<Rightarrow> bool" where
  "teardown_call c = (begin_call c \<or> loop_call c \<or> finish_call c)"

definition teardown_calls :: "pyval \<Rightarrow> pyval \<Rightarrow> pyval \<Rightarrow> call list \<Rightarrow> pyval \<Rightarrow> call list" where
  "teardown_calls root_pg rid flow_id loop reg_client =
     [Call ''nf.set_environment'' [] [],
      Call ''canvas.schedule_process_group'' [rid, PBool False] []] @
     loop @
     [Call ''nf.delete_all'' [root_pg] [],
      Call ''efm.delete_all'' [flow_id] [],
      Call ''schreg.delete_all_schemas'' [] [],
      Call ''versioning.get_registry_client'' [PStr ''NiFi Registry''] []] @
     (if truthy reg_client then [Call ''versioning.delete_registry_client'' [reg_client] []] else []) @
     [Call ''nifireg.delete_flows'' [PStr ''SensorFlows''] [],
      Call ''kudu.drop_table'' [] [],
      Call ''cdsw.delete_all_model_api_keys'' [] []]"

definition count_calls :: "string \<Rightarrow> event list \<Rightarrow> nat" where
  "count_calls f evs = length (filter (\<lambda>ev. fname (fst ev) = f) evs)"

definition root0 :: pyval where
  "root0 = PObj [(''id'', PStr ''root'')]"

definition ctrl_a :: pyval where
  "ctrl_a = PObj [(''id'', PStr ''a''), (''component'', PObj [(''name'', PStr ''SchemaRegistry'')])]"

definition ctrl_b :: pyval where
  "ctrl_b = PObj [(''id'', PStr ''b''), (''component'', PObj [(''name'', PStr ''JsonTreeReader'')])]"

definition answer :: "call \<Rightarrow> response" where
  "answer c =
     (if fname c = ''nf.set_environment'' then Inr (PTuple [root0, PStr ''efm-pg'', PStr ''flow-1''])
      else if fname c = ''canvas.list_all_controllers'' then Inr (PList [ctrl_a, ctrl_b])
      else if fname c = ''versioning.get_registry_client'' then Inr (PObj [(''id'', PStr ''reg'')])
      else Inr PNone)"

definition conflict :: exn where
  "conflict = ApiException (Some 409) (Some ''SchemaRegistry is referenced by JsonTreeReader'')"

definition world_quiet :: world where
  "world_quiet t c = answer c"

definition world_conflict :: world where
  "world_conflict t c = (if fname c = ''canvas.schedule_controller'' then Inl conflict else answer c)"

definition world_retry :: world where
  "world_retry t c =
     (if c = stop_call ctrl_a \<and> count_calls ''canvas.list_all_controllers'' t \<le> 1
      then Inl conflict else answer c)"


definition state0 :: state where
  "state0 = \<lparr>environ = Map.empty, run_id = ''run-1'', ctxt = [], trace = [], log_lines = []\<rparr>"

definition list_call :: call where
  "list_call = Call ''canvas.list_all_controllers'' [PStr ''root''] []"

definition quiet_calls :: "call list" where
  "quiet_calls = teardown_calls root0 (PStr ''root'') (PStr ''flow-1'')
     [list_call, stop_call ctrl_a, stop_call ctrl_b] (PObj [(''id'', PStr ''reg'')])"

definition quiet_final :: state where
  "quiet_final = state0\<lparr>trace := map (\<lambda>c. (c, answer c)) quiet_calls,
     log_lines := [(''Controller %s stopped.'', [PStr ''SchemaRegistry'']),
                   (''Controller %s stopped.'', [PStr ''JsonTreeReader''])]\<rparr>"



definition world_delete_fails :: world where
  "world_delete_fails t c =
     (if fname c = ''nf.delete_all'' then Inl (OtherException ''ConnectionError'') else answer c)"

definition delete_fails_final :: state where
  "delete_fails_final = state0\<lparr>trace := map (\<lambda>c. (c, world_delete_fails [] c)) (take 6 quiet_calls),
     log_lines := [(''Controller %s stopped.'', [PStr ''SchemaRegistry'']),
                   (''Controller %s stopped.'', [PStr ''JsonTreeReader''])]\<rparr>"

definition retry_mid :: state where
  "retry_mid = state0\<lparr>trace :=
       [(list_call, answer list_call), (stop_call ctrl_a, Inl conflict), (stop_call ctrl_b, Inr PNone)],
     log_lines := [(''Controller %s failed to stop. Will retry later.'', [PStr ''SchemaRegistry'']),
                   (''Controller %s stopped.'', [PStr ''JsonTreeReader''])]\<rparr>"

definition retry_final :: state where
  "retry_final = retry_mid\<lparr>trace := trace retry_mid @
       [(list_call, answer list_call), (stop_call ctrl_a, Inr PNone), (stop_call ctrl_b, Inr PNone)],
     log_lines := log_lines retry_mid @
       [(''Controller %s stopped.'', [PStr ''SchemaRegistry'']),
        (''Controller %s stopped.'', [PStr ''JsonTreeReader''])]\<rparr>"






text \<open>The calls of lines 61 and 63.\<close>

definition begin_calls :: "pyval \<Rightarrow> call list" where
  "begin_calls rid =
     [Call ''nf.set_environment'' [] [],
      Call ''canvas.schedule_process_group'' [rid, PBool False] []]"

definition lookup_call :: call where
  "lookup_call = Call ''versioning.get_registry_client'' [PStr ''NiFi Registry''] []"

text \<open>What the first \<^verbatim>\<open>get_registry_client\<close> call of \<open>evs\<close> returned (\<^verbatim>\<open>None\<close> if there is none).\<close>

definition lookup_answer :: "event list \<Rightarrow> pyval" where
  "lookup_answer evs =
     (case filter (\<lambda>ev. fst ev = lookup_call \<and> \<not> isl (snd ev)) evs of
        [] \<Rightarrow> PNone
      | ev # rest \<Rightarrow> (case snd ev of Inr v \<Rightarrow> v | Inl e \<Rightarrow> PNone))"

definition returned :: "event \<Rightarrow> bool" where
  "returned ev = (\<not> isl (snd ev))"

text \<open>
  \<open>run_of cs r c\<close>: the events \<open>c\<close> are a run through the calls \<open>cs\<close> with result \<open>r\<close>:
  the calls are issued in the order of \<open>cs\<close>, each after the one before it has
  returned, all of them when the result is normal, up to the one that raised otherwise.
\<close>

definition run_of :: "call list \<Rightarrow> exn + 'a \<Rightarrow> event list \<Rightarrow> bool" where
  "run_of cs r c = (prefix (map fst c) cs \<and> list_all returned (butlast c) \<and>
     (case r of
        Inr u \<Rightarrow> map fst c = cs \<and> list_all returned c
      | Inl e \<Rightarrow> c \<noteq> [] \<and> snd (last c) = Inl e))"

definition runs :: "call list \<Rightarrow> 'a M \<Rightarrow> bool" where
  "runs cs m = (\<forall>w s r s'. m w s = (r, s') \<longrightarrow> (\<exists>c. trace s' = trace s @ c \<and> run_of cs r c))"

text \<open>
  The events of a pass that was cut short: nothing, or the \<^verbatim>\<open>list_all_controllers\<close> call
  and, when it returned an iterable, \<^verbatim>\<open>schedule_controller\<close> calls for the first
  controllers of its answer, in order.
\<close>

definition pass_prefix :: "pyval \<Rightarrow> event list \<Rightarrow> bool" where
  "pass_prefix root_pg evs = (case evs of
      [] \<Rightarrow> True
    | ev # rest \<Rightarrow>
        (case getattr root_pg ''id'' of
           Inl e \<Rightarrow> False
         | Inr rid \<Rightarrow>
             fst ev = Call ''canvas.list_all_controllers'' [rid] [] \<and>
             (case snd ev of
                Inl e \<Rightarrow> rest = []
              | Inr v \<Rightarrow>
                  (case iter_py v of
                     Inl e \<Rightarrow> rest = []
                   | Inr cs \<Rightarrow> prefix (map fst rest) (map stop_call cs)))))"

text \<open>A complete pass in which a call raised the 409 conflict, and one in which none did.\<close>

definition conflict_pass :: "pyval \<Rightarrow> event list \<Rightarrow> bool" where
  "conflict_pass root_pg p = (complete_pass root_pg p \<and> list_ex (\<lambda>ev. is_conflict (snd ev)) p)"

definition clean_pass :: "pyval \<Rightarrow> event list \<Rightarrow> bool" where
  "clean_pass root_pg p = (complete_pass root_pg p \<and> list_all (\<lambda>ev. \<not> is_conflict (snd ev)) p)"

text \<open>The events of lines 61 and 63 when both calls returned.\<close>

definition begin_events :: "pyval \<Rightarrow> pyval \<Rightarrow> pyval \<Rightarrow> event list" where
  "begin_events env3 rid v =
     [(Call ''nf.set_environment'' [] [], Inr env3),
      (Call ''canvas.schedule_process_group'' [rid, PBool False] [], Inr v)]"

text \<open>
  The run of teardown in \<open>world_retry\<close>: the first pass meets the conflict on the first
  controller, the second pass stops both.
\<close>

definition env0 :: pyval where
  "env0 = PTuple [root0, PStr ''efm-pg'', PStr ''flow-1'']"

definition retry_pass1 :: "event list" where
  "retry_pass1 = [(list_call, Inr (PList [ctrl_a, ctrl_b])), (stop_call ctrl_a, Inl conflict),
     (stop_call ctrl_b, Inr PNone)]"

definition retry_pass2 :: "event list" where
  "retry_pass2 = [(list_call, Inr (PList [ctrl_a, ctrl_b])), (stop_call ctrl_a, Inr PNone),
     (stop_call ctrl_b, Inr PNone)]"

definition finish_events :: "event list" where
  "finish_events = map (\<lambda>c. (c, answer c))
     (finish_calls root0 (PStr ''flow-1'') (PObj [(''id'', PStr ''reg'')]))"

definition retry_done :: state where
  "retry_done = state0\<lparr>
     trace := begin_events env0 (PStr ''root'') PNone @ retry_pass1 @ retry_pass2 @ finish_events,
     log_lines := log_lines retry_final\<rparr>"

text \<open>The calls of \<^verbatim>\<open>read_in_schema\<close>.\<close>

definition exists_call :: "string \<Rightarrow> call" where
  "exists_call p = Call ''os.path.exists'' [PStr p] []"

definition open_call :: "string \<Rightarrow> call" where
  "open_call p = Call ''open'' [PStr p] []"

definition read_call :: "pyval \<Rightarrow> call" where
  "read_call f = Call ''read'' [f] []"

definition get_call :: "string \<Rightarrow> call" where
  "get_call uri = Call ''requests.get'' [PStr uri] []"

text \<open>
  The trace at which \<^verbatim>\<open>read_in_schema\<close> takes the \<^verbatim>\<open>else\<close> branch (line 28), if it does:
  \<^verbatim>\<open>SCHEMA_FILE\<close> is not set, or it is set and \<^verbatim>\<open>os.path.exists\<close> answered a false value.
\<close>

definition http_branch :: "world \<Rightarrow> state \<Rightarrow> event list option" where
  "http_branch w s = (case environ s ''SCHEMA_FILE'' of
      None \<Rightarrow> Some (trace s)
    | Some p \<Rightarrow> (case w (trace s) (exists_call p) of
        Inl e \<Rightarrow> None
      | Inr b \<Rightarrow> if truthy b then None else Some (trace s @ [(exists_call p, Inr b)])))"

text \<open>A state with \<^verbatim>\<open>SCHEMA_FILE\<close> set, and environments for the two branches.\<close>

definition state_file :: state where
  "state_file = state0\<lparr>environ := [''SCHEMA_FILE'' \<mapsto> ''/tmp/sensor.avsc'']\<rparr>"

definition world_file :: world where
  "world_file t c =
     (if fname c = ''os.path.exists'' then Inr (PBool True)
      else if fname c = ''open'' then Inr (PObj [(''name'', PStr ''/tmp/sensor.avsc'')])
      else if fname c = ''read'' then Inr (PStr ''{type: record}'')
      else Inl (OtherException ''ConnectionError''))"

definition world_http :: "int \<Rightarrow> world" where
  "world_http code t c =
     (if fname c = ''os.path.exists'' then Inr (PBool False)
      else if fname c = ''requests.get''
      then Inr (PObj [(''status_code'', PInt code), (''text'', PStr ''{type: record}'')])
      else Inl (OtherException ''IOError''))"

section \<open>Lemmas\<close>

lemmas monad_defs = returnM_def raiseM_def bindM_def liftM_def callM_def try_except_def
  ctx_get_def ctx_set_def ctx_obj_def log_debug_def get_run_id_def get_environ_def ctx_attr_def

lemma answered_append: "answered w t (a @ b) = (answered w t a \<and> answered w (t @ a) b)"
  by (induction a arbitrary: t) auto

lemma steps_refl: "steps P K w s s"
  by (simp add: steps_def)

lemma steps_trans: "steps P K w s1 s2 \<Longrightarrow> steps P K w s2 s3 \<Longrightarrow> steps P K w s1 s3"
  unfolding steps_def
  apply (elim conjE exE)
  apply (intro conjI)
  subgoal for evs evsa
    apply (rule exI[of _ "evs @ evsa"])
    apply (auto simp: answered_append)
    done
  apply auto
  done

lemma issues_return: "issues P K (returnM x)"
  by (simp add: issues_def returnM_def steps_refl)

lemma issues_raise: "issues P K (raiseM e)"
  by (simp add: issues_def raiseM_def steps_refl)

lemma issues_lift: "issues P K (liftM r)"
  by (simp add: issues_def liftM_def steps_refl)

lemma issues_ctx_get: "issues P K (ctx_get k)"
  by (simp add: issues_def ctx_get_def steps_refl split: option.splits)

lemma issues_ctx_obj: "issues P K ctx_obj"
  by (simp add: issues_def ctx_obj_def steps_refl)

lemma issues_get_run_id: "issues P K get_run_id"
  by (simp add: issues_def get_run_id_def steps_refl)

lemma issues_get_environ: "issues P K get_environ"
  by (simp add: issues_def get_environ_def steps_refl)

lemma issues_log_debug: "issues P K (log_debug fmt as)"
  by (simp add: issues_def log_debug_def steps_def)

lemma issues_call: "P (Call f as kw) \<Longrightarrow> issues P K (callM f as kw)"
  by (simp add: issues_def callM_def steps_def Let_def)

lemma issues_ctx_set: "k \<in> K \<Longrightarrow> issues P K (ctx_set k v)"
  by (auto simp: issues_def ctx_set_def steps_def update_conv')

lemma issues_bind: "issues P K m \<Longrightarrow> (\<And>x. issues P K (f x)) \<Longrightarrow> issues P K (bindM m f)"
proof -
  assume m: "issues P K m" and f: "\<And>x. issues P K (f x)"
  show ?thesis
    unfolding issues_def
  proof (intro allI)
    fix w s
    obtain r s1 where ms: "m w s = (r, s1)" by (cases "m w s")
    have 1: "steps P K w s s1" using m ms unfolding issues_def by (metis snd_conv)
    show "steps P K w s (snd (bindM m f w s))"
    proof (cases r)
      case (Inl e)
      then show ?thesis using 1 ms by (simp add: bindM_def)
    next
      case (Inr x)
      have "steps P K w s1 (snd (f x w s1))" using f unfolding issues_def by blast
      then show ?thesis using 1 ms Inr steps_trans by (simp add: bindM_def)
    qed
  qed
qed

lemma issues_try: "issues P K m \<Longrightarrow> (\<And>e. issues P K (h e)) \<Longrightarrow> issues P K (try_except m h)"
proof -
  assume m: "issues P K m" and h: "\<And>e. issues P K (h e)"
  show ?thesis
    unfolding issues_def
  proof (intro allI)
    fix w s
    obtain r s1 where ms: "m w s = (r, s1)" by (cases "m w s")
    have 1: "steps P K w s s1" using m ms unfolding issues_def by (metis snd_conv)
    show "steps P K w s (snd (try_except m h w s))"
    proof (cases r)
      case (Inr x)
      then show ?thesis using 1 ms by (simp add: try_except_def)
    next
      case (Inl e)
      have "steps P K w s1 (snd (h e w s1))" using h unfolding issues_def by blast
      then show ?thesis using 1 ms Inl steps_trans by (simp add: try_except_def)
    qed
  qed
qed

lemma issues_if: "(c \<Longrightarrow> issues P K a) \<Longrightarrow> (\<not> c \<Longrightarrow> issues P K b) \<Longrightarrow> issues P K (if c then a else b)"
  by simp

lemma issues_ctx_attr: "issues P K (ctx_attr k a)"
  unfolding ctx_attr_def by (intro issues_bind issues_ctx_get issues_lift)

lemma issues_mono: "issues P K m \<Longrightarrow> (\<And>c. P c \<Longrightarrow> Q c) \<Longrightarrow> K \<subseteq> K' \<Longrightarrow> issues Q K' m"
  unfolding issues_def steps_def by blast

lemmas issues_intros = issues_bind issues_return issues_raise issues_lift issues_ctx_get
  issues_ctx_obj issues_get_run_id issues_get_environ issues_log_debug issues_call issues_ctx_set
  issues_try issues_if issues_ctx_attr

lemma propagates_append:
  "propagates (Inr x) a \<Longrightarrow> propagates r b \<Longrightarrow> propagates r (a @ b)"
  by (cases r) (auto simp: propagates_def butlast_append)

lemma propagates_quiet: "list_all quiet a \<Longrightarrow> propagates r b \<Longrightarrow> propagates r (a @ b)"
  by (cases r) (auto simp: propagates_def butlast_append)

lemma getattr_not_api: "getattr v a = Inl e \<Longrightarrow> \<not> is_ApiException e"
  by (cases v) (auto split: option.splits)

lemma for_body:
  assumes "teardown_for_body c failed w s = (r, s')"
  shows "trace s' = trace s @ [(stop_call c, w (trace s) (stop_call c))]"
    and "propagates r [(stop_call c, w (trace s) (stop_call c))]"
    and "r = Inr f \<Longrightarrow> f = (failed \<or> is_conflict (w (trace s) (stop_call c)))"
  using assms
  by (auto simp: teardown_for_body_def monad_defs stop_call_def Let_def propagates_def quiet_def
      swallowed_def is_conflict_def
      split: sum.splits exn.splits option.splits prod.splits if_splits dest: getattr_not_api)

lemma quiet_stop: "quiet (stop_call c, r) = (\<not> isl r \<or> (case r of Inl e \<Rightarrow> is_ApiException e | Inr v \<Rightarrow> False))"
  by (simp add: quiet_def swallowed_def stop_call_def)

lemma for_loop:
  "teardown_for cs failed w s = (r, s') \<Longrightarrow>
   \<exists>evs. trace s' = trace s @ evs \<and> answered w (trace s) evs \<and> propagates r evs \<and>
     (\<forall>ev\<in>set evs. fname (fst ev) = ''canvas.schedule_controller'') \<and>
     (\<forall>f. r = Inr f \<longrightarrow> map fst evs = map stop_call cs \<and>
        (f = (failed \<or> (\<exists>ev\<in>set evs. is_conflict (snd ev)))))"
proof (induction cs arbitrary: failed s)
  case Nil
  then show ?case by (auto simp: returnM_def propagates_def)
next
  case (Cons c cs)
  obtain r1 s1 where b: "teardown_for_body c failed w s = (r1, s1)"
    by (cases "teardown_for_body c failed w s")
  let ?ev = "(stop_call c, w (trace s) (stop_call c))"
  note fb = for_body[OF b]
  show ?case
  proof (cases r1)
    case (Inl e)
    with Cons.prems b have "r = Inl e" "s' = s1" by (auto simp: bindM_def)
    then show ?thesis using fb Inl
      by (intro exI[of _ "[?ev]"]) (auto simp: stop_call_def)
  next
    case (Inr f1)
    with Cons.prems b have rest: "teardown_for cs f1 w s1 = (r, s')" by (auto simp: bindM_def)
    from Cons.IH[OF rest] obtain evs where evs:
      "trace s' = trace s1 @ evs" "answered w (trace s1) evs" "propagates r evs"
      "\<forall>ev\<in>set evs. fname (fst ev) = ''canvas.schedule_controller''"
      "\<forall>f. r = Inr f \<longrightarrow> map fst evs = map stop_call cs \<and>
        (f = (f1 \<or> (\<exists>ev\<in>set evs. is_conflict (snd ev))))"
      by blast
    have f1: "f1 = (failed \<or> is_conflict (w (trace s) (stop_call c)))" using fb(3) Inr by simp
    have p: "propagates r (?ev # evs)"
      using propagates_append[of _ "[?ev]" r evs] fb(2) evs(3) Inr by simp
    show ?thesis
      apply (intro exI[of _ "?ev # evs"])
      using fb(1) evs p f1 
      apply (auto simp: stop_call_def)
      done
  qed
qed

lemma iter_py_not_api: "iter_py v = Inl e \<Longrightarrow> \<not> is_ApiException e"
  by (cases v) auto

lemma pass:
  assumes "teardown_pass root_pg w s = (r, s')"
  shows "\<exists>evs. trace s' = trace s @ evs \<and> answered w (trace s) evs \<and> propagates r evs \<and>
     (\<forall>ev\<in>set evs. loop_call (fst ev)) \<and>
     (\<forall>f. r = Inr f \<longrightarrow> complete_pass root_pg evs \<and> (f = (\<exists>ev\<in>set evs. is_conflict (snd ev))))"
proof (cases "getattr root_pg ''id''")
  case (Inl e)
  then show ?thesis using assms getattr_not_api[OF Inl]
    by (auto simp: teardown_pass_def monad_defs propagates_def)
next
  case (Inr rid)
  let ?c = "Call ''canvas.list_all_controllers'' [rid] []"
  let ?ev = "(?c, w (trace s) ?c)"
  let ?s1 = "s\<lparr>trace := trace s @ [?ev]\<rparr>"
  show ?thesis
  proof (cases "w (trace s) ?c")
    case (Inl e)
    then show ?thesis using assms Inr
      by (intro exI[of _ "[?ev]"])
         (auto simp: teardown_pass_def monad_defs propagates_def Let_def loop_call_def quiet_def swallowed_def)
  next
    case cs: (Inr v)
    show ?thesis
    proof (cases "iter_py v")
      case (Inl e)
      then show ?thesis using assms Inr cs iter_py_not_api[OF Inl]
        by (intro exI[of _ "[?ev]"])
           (auto simp: teardown_pass_def monad_defs propagates_def Let_def loop_call_def quiet_def)
    next
      case xs: (Inr xs)
      have f: "teardown_for xs False w ?s1 = (r, s')"
        using assms Inr cs xs by (simp add: teardown_pass_def monad_defs Let_def)
      from for_loop[OF f] obtain evs where evs:
        "trace s' = trace ?s1 @ evs" "answered w (trace ?s1) evs" "propagates r evs"
        "\<forall>ev\<in>set evs. fname (fst ev) = ''canvas.schedule_controller''"
        "\<forall>f. r = Inr f \<longrightarrow> map fst evs = map stop_call xs \<and>
           (f = (False \<or> (\<exists>ev\<in>set evs. is_conflict (snd ev))))"
        by blast
      have q: "list_all quiet [?ev]" using cs by (simp add: quiet_def)
      have p: "propagates r (?ev # evs)" using propagates_quiet[OF q evs(3)] by simp
      have nc: "\<not> is_conflict (w (trace s) ?c)" using cs by (simp add: is_conflict_def)
      show ?thesis
        apply (intro exI[of _ "?ev # evs"])
        using evs p nc Inr cs xs
        apply (auto simp: loop_call_def complete_pass_def)
        done
    qed
  qed
qed

lemma while_unfold_failed:
  "teardown_pass root_pg w s = (Inr True, s1) \<Longrightarrow>
   teardown_while root_pg w s = teardown_while root_pg w s1"
  by (subst teardown_while.simps) simp

lemma while_exit:
  "teardown_pass root_pg w s = (Inr False, s1) \<Longrightarrow> teardown_while root_pg w s = Some (Inr (), s1)"
  by (subst teardown_while.simps) simp

lemma while_raise:
  "teardown_pass root_pg w s = (Inl e, s1) \<Longrightarrow> teardown_while root_pg w s = Some (Inl e, s1)"
  by (subst teardown_while.simps) simp

lemma failed_passes_while:
  "failed_passes root_pg w n s = Some sn \<Longrightarrow>
   teardown_while root_pg w s = teardown_while root_pg w sn"
proof (induction n arbitrary: s)
  case 0
  then show ?case by simp
next
  case (Suc n)
  then obtain s1 where 1: "teardown_pass root_pg w s = (Inr True, s1)"
    and 2: "failed_passes root_pg w n s1 = Some sn"
    by (auto split: prod.splits sum.splits bool.splits)
  show ?case using while_unfold_failed[OF 1] Suc.IH[OF 2] by simp
qed

lemma failed_passes_Suc_front:
  "teardown_pass root_pg w s = (Inr True, s1) \<Longrightarrow>
   failed_passes root_pg w (Suc n) s = failed_passes root_pg w n s1"
  by simp

lemma while_some:
  "teardown_while root_pg w s = Some y \<Longrightarrow>
   \<exists>n sn. failed_passes root_pg w n s = Some sn \<and> last_pass root_pg w sn y"
proof (induction rule: teardown_while.raw_induct[rotated 1, consumes 1])
  case (1 tw root_pg w s y)
  obtain r s1 where p: "teardown_pass root_pg w s = (r, s1)" by (cases "teardown_pass root_pg w s")
  show ?case
  proof (cases r)
    case (Inl e)
    with 1(2) p have "y = (Inl e, s1)" by simp
    then have "last_pass root_pg w s y" using p Inl by (simp add: last_pass_def)
    then show ?thesis by (intro exI[of _ 0] exI[of _ s]) simp
  next
    case (Inr failed)
    show ?thesis
    proof (cases failed)
      case False
      with 1(2) p Inr have "y = (Inr (), s1)" by simp
      then have "last_pass root_pg w s y" using p Inr False by (simp add: last_pass_def)
      then show ?thesis by (intro exI[of _ 0] exI[of _ s]) simp
    next
      case True
      with 1(2) p Inr have "tw root_pg w s1 = Some y" by simp
      from 1(1)[OF this] obtain n sn where
        n: "failed_passes root_pg w n s1 = Some sn" "last_pass root_pg w sn y" by blast
      have "failed_passes root_pg w (Suc n) s = Some sn"
        using p Inr True n(1) by simp
      then show ?thesis using n(2) by blast
    qed
  qed
qed

lemma while_iff:
  "teardown_while root_pg w s = Some y \<longleftrightarrow>
   (\<exists>n sn. failed_passes root_pg w n s = Some sn \<and> last_pass root_pg w sn y)"
proof
  assume "teardown_while root_pg w s = Some y"
  then show "\<exists>n sn. failed_passes root_pg w n s = Some sn \<and> last_pass root_pg w sn y"
    by (rule while_some)
next
  assume "\<exists>n sn. failed_passes root_pg w n s = Some sn \<and> last_pass root_pg w sn y"
  then obtain n sn where n: "failed_passes root_pg w n s = Some sn" and l: "last_pass root_pg w sn y"
    by blast
  obtain r s1 where p: "teardown_pass root_pg w sn = (r, s1)" by (cases "teardown_pass root_pg w sn")
  have "teardown_while root_pg w sn = Some y"
    using l p while_exit[of root_pg w sn s1] while_raise[of root_pg w sn _ s1]
    by (cases r) (auto simp: last_pass_def)
  then show "teardown_while root_pg w s = Some y" using failed_passes_while[OF n] by simp
qed

lemma failed_passes_trace:
  "failed_passes root_pg w n s = Some sn \<Longrightarrow>
   \<exists>evs. trace sn = trace s @ evs \<and> answered w (trace s) evs \<and> list_all quiet evs \<and>
     (\<forall>ev\<in>set evs. loop_call (fst ev))"
proof (induction n arbitrary: s)
  case 0
  then show ?case by simp
next
  case (Suc n)
  then obtain s1 where 1: "teardown_pass root_pg w s = (Inr True, s1)"
    and 2: "failed_passes root_pg w n s1 = Some sn"
    by (auto split: prod.splits sum.splits bool.splits)
  from pass[OF 1] obtain a where a: "trace s1 = trace s @ a" "answered w (trace s) a"
    "list_all quiet a" "\<forall>ev\<in>set a. loop_call (fst ev)"
    by (auto simp: propagates_def)
  from Suc.IH[OF 2] obtain b where b: "trace sn = trace s1 @ b" "answered w (trace s1) b"
    "list_all quiet b" "\<forall>ev\<in>set b. loop_call (fst ev)"
    by blast
  show ?case
    by (intro exI[of _ "a @ b"]) (use a b in \<open>auto simp: answered_append\<close>)
qed

lemma while_trace:
  assumes "teardown_while root_pg w s = Some (r, s')"
  shows "\<exists>evs. trace s' = trace s @ evs \<and> answered w (trace s) evs \<and> propagates r evs \<and>
     (\<forall>ev\<in>set evs. loop_call (fst ev))"
proof -
  from while_some[OF assms] obtain n sn where n: "failed_passes root_pg w n s = Some sn"
    and l: "last_pass root_pg w sn (r, s')" by blast
  obtain r1 where p: "teardown_pass root_pg w sn = (r1, s')" and r1: "propagates r1 = (propagates r :: event list \<Rightarrow> bool)"
    using l by (cases "teardown_pass root_pg w sn"; cases "fst (teardown_pass root_pg w sn)")
       (auto simp: last_pass_def propagates_def fun_eq_iff)
  from failed_passes_trace[OF n] obtain a where a: "trace sn = trace s @ a" "answered w (trace s) a"
    "list_all quiet a" "\<forall>ev\<in>set a. loop_call (fst ev)" by blast
  from pass[OF p] obtain b where b: "trace s' = trace sn @ b" "answered w (trace sn) b"
    "propagates r1 b" "\<forall>ev\<in>set b. loop_call (fst ev)" by blast
  have "propagates r (a @ b)" using propagates_quiet[OF a(3)] b(3) r1 by simp
  then show ?thesis
    by (intro exI[of _ "a @ b"]) (use a b in \<open>auto simp: answered_append\<close>)
qed

lemma unpack3_not_api: "unpack3 v = Inl e \<Longrightarrow> \<not> is_ApiException e"
  by (auto split: sum.splits list.splits dest: iter_py_not_api)

declare unpack3.simps [simp del]

lemma call_eq: "callM f as kw w s = (w (trace s) (Call f as kw), s\<lparr>trace := trace s @ [(Call f as kw, w (trace s) (Call f as kw))]\<rparr>)"
  by (simp add: callM_def Let_def)

lemma begin_trace:
  assumes "teardown_begin w s = (r, s')"
  shows "\<exists>evs. trace s' = trace s @ evs \<and> answered w (trace s) evs \<and> propagates r evs \<and>
     (\<forall>ev\<in>set evs. begin_call (fst ev)) \<and>
     (\<forall>root_pg flow_id. r = Inr (root_pg, flow_id) \<longrightarrow>
        (\<exists>env3 efm rid v. evs = [(Call ''nf.set_environment'' [] [], Inr env3),
                (Call ''canvas.schedule_process_group'' [rid, PBool False] [], Inr v)] \<and>
           unpack3 env3 = Inr (root_pg, efm, flow_id) \<and> getattr root_pg ''id'' = Inr rid))"
proof -
  let ?c1 = "Call ''nf.set_environment'' [] []"
  let ?e1 = "(?c1, w (trace s) ?c1)"
  let ?s1 = "s\<lparr>trace := trace s @ [?e1]\<rparr>"
  show ?thesis
  proof (cases "w (trace s) ?c1")
    case (Inl e)
    then show ?thesis using assms
      by (intro exI[of _ "[?e1]"])
         (auto simp: teardown_begin_def bindM_def call_eq propagates_def quiet_def swallowed_def begin_call_def)
  next
    case env: (Inr env3)
    show ?thesis
    proof (cases "unpack3 env3")
      case (Inl e)
      then show ?thesis using assms env unpack3_not_api[OF Inl]
        by (intro exI[of _ "[?e1]"])
           (auto simp: teardown_begin_def bindM_def liftM_def call_eq propagates_def quiet_def begin_call_def)
    next
      case t: (Inr t)
      obtain root_pg efm flow_id where tt: "t = (root_pg, efm, flow_id)" by (cases t) auto
      show ?thesis
      proof (cases "getattr root_pg ''id''")
        case (Inl e)
        then show ?thesis using assms env t tt getattr_not_api[OF Inl]
          by (intro exI[of _ "[?e1]"])
             (auto simp: teardown_begin_def bindM_def liftM_def call_eq propagates_def quiet_def begin_call_def)
      next
        case rid: (Inr rid)
        let ?c2 = "Call ''canvas.schedule_process_group'' [rid, PBool False] []"
        let ?e2 = "(?c2, w (trace ?s1) ?c2)"
        show ?thesis
        proof (cases "w (trace ?s1) ?c2")
          case (Inl e)
          then show ?thesis using assms env t tt rid
            by (intro exI[of _ "[?e1, ?e2]"])
               (auto simp: teardown_begin_def bindM_def liftM_def call_eq propagates_def quiet_def
                  swallowed_def begin_call_def)
        next
          case (Inr v)
          then show ?thesis using assms env t tt rid
            by (intro exI[of _ "[?e1, ?e2]"])
               (auto simp: teardown_begin_def bindM_def liftM_def returnM_def call_eq propagates_def quiet_def
                  swallowed_def begin_call_def)
        qed
      qed
    qed
  qed
qed

lemma strictD:
  "strict P m \<Longrightarrow> m w s = (r, s') \<Longrightarrow>
   \<exists>evs. trace s' = trace s @ evs \<and> answered w (trace s) evs \<and>
      (\<forall>ev\<in>set evs. P (fst ev)) \<and> propagates r evs"
  unfolding strict_def
  apply (drule spec[of _ w], drule spec[of _ s])
  apply simp
  done

lemma propagates_Inl: "propagates (Inl e :: exn + 'a) evs = propagates (Inl e :: exn + 'b) evs"
  by (simp add: propagates_def)

lemma strict_return: "strict P (returnM x)"
  by (simp add: strict_def returnM_def propagates_def)

lemma strict_lift: "(\<And>e. r = Inl e \<Longrightarrow> \<not> is_ApiException e) \<Longrightarrow> strict P (liftM r)"
  by (cases r) (auto simp: strict_def liftM_def propagates_def)

lemma strict_call:
  "P (Call f as kw) \<Longrightarrow> f \<noteq> ''canvas.schedule_controller'' \<Longrightarrow> strict P (callM f as kw)"
  unfolding strict_def
  apply (intro allI)
  subgoal for w s
    apply (rule exI[of _ "[(Call f as kw, w (trace s) (Call f as kw))]"])
    apply (cases "w (trace s) (Call f as kw)")
     apply (auto simp: call_eq propagates_def quiet_def swallowed_def)
    done
  done

lemma strict_bind:
  assumes m: "strict P m" and f: "\<And>x. strict P (f x)"
  shows "strict P (bindM m f)"
  unfolding strict_def
proof (intro allI)
  fix w s
  obtain r s1 where ms: "m w s = (r, s1)" by (cases "m w s")
  from strictD[OF m ms] obtain a where a: "trace s1 = trace s @ a" "answered w (trace s) a"
    "\<forall>ev\<in>set a. P (fst ev)" "propagates r a" by blast
  show "\<exists>evs. trace (snd (bindM m f w s)) = trace s @ evs \<and> answered w (trace s) evs \<and>
      (\<forall>ev\<in>set evs. P (fst ev)) \<and> propagates (fst (bindM m f w s)) evs"
  proof (cases r)
    case (Inl e)
    then have "bindM m f w s = (Inl e, s1)" using ms by (simp add: bindM_def)
    then show ?thesis using a Inl by (intro exI[of _ a]) (simp add: propagates_def)
  next
    case (Inr x)
    obtain r2 s2 where fs: "f x w s1 = (r2, s2)" by (cases "f x w s1")
    from strictD[OF f fs] obtain b where b: "trace s2 = trace s1 @ b" "answered w (trace s1) b"
      "\<forall>ev\<in>set b. P (fst ev)" "propagates r2 b" by blast
    have "bindM m f w s = (r2, s2)" using ms Inr fs by (simp add: bindM_def)
    moreover have "propagates r2 (a @ b)" using propagates_append[of _ a r2 b] a(4) b(4) Inr by simp
    ultimately show ?thesis using a b by (intro exI[of _ "a @ b"]) (auto simp: answered_append)
  qed
qed

lemma strict_if: "(c \<Longrightarrow> strict P a) \<Longrightarrow> (\<not> c \<Longrightarrow> strict P b) \<Longrightarrow> strict P (if c then a else b)"
  by simp

lemmas strict_intros = strict_bind strict_return strict_call strict_if

lemma finish_strict: "strict finish_call (teardown_finish root_pg flow_id)"
  unfolding teardown_finish_def
  by (intro strict_intros; simp add: finish_call_def)

lemma bind_InrE:
  assumes "bindM m f w s = (Inr y, s')"
  obtains x s1 where "m w s = (Inr x, s1)" "f x w s1 = (Inr y, s')"
  using assms by (auto simp: bindM_def split: prod.splits sum.splits)

lemma call_InrD:
  "callM f as kw w s = (Inr v, s') \<Longrightarrow>
   w (trace s) (Call f as kw) = Inr v \<and> s' = s\<lparr>trace := trace s @ [(Call f as kw, Inr v)]\<rparr>"
  by (auto simp: call_eq)

lemma finish_success:
  assumes "teardown_finish root_pg flow_id w s = (Inr u, s')"
  shows "\<exists>evs reg_client. trace s' = trace s @ evs \<and>
     map fst evs = finish_calls root_pg flow_id reg_client \<and>
     (Call ''versioning.get_registry_client'' [PStr ''NiFi Registry''] [], Inr reg_client) \<in> set evs \<and>
     list_all (\<lambda>ev. \<not> isl (snd ev)) evs"
  using assms unfolding teardown_finish_def
  apply (elim bind_InrE)
  apply (drule call_InrD)+
  apply (auto simp: returnM_def finish_calls_def split: if_splits elim!: bind_InrE dest!: call_InrD)
  done

lemma teardown_cases:
  assumes "teardown w s = Some (r, s')"
  obtains (at_begin) e where "teardown_begin w s = (Inl e, s')" "r = Inl e"
  | (in_loop) root_pg flow_id s1 e where "teardown_begin w s = (Inr (root_pg, flow_id), s1)"
      "teardown_while root_pg w s1 = Some (Inl e, s')" "r = Inl e"
  | (at_finish) root_pg flow_id s1 s2 where "teardown_begin w s = (Inr (root_pg, flow_id), s1)"
      "teardown_while root_pg w s1 = Some (Inr (), s2)" "teardown_finish root_pg flow_id w s2 = (r, s')"
  using assms by (auto simp: teardown_def split: prod.splits sum.splits option.splits)

lemma teardown_trace:
  assumes "teardown w s = Some (r, s')"
  shows "\<exists>evs. trace s' = trace s @ evs \<and> answered w (trace s) evs \<and> propagates r evs \<and>
     (\<forall>ev\<in>set evs. teardown_call (fst ev))"
  using assms
proof (cases rule: teardown_cases)
  case (at_begin e)
  from begin_trace[OF at_begin(1)] obtain a where a: "trace s' = trace s @ a" "answered w (trace s) a"
    "propagates (Inl e :: exn + pyval \<times> pyval) a" "\<forall>ev\<in>set a. begin_call (fst ev)" by auto
  have "propagates r a" using a(3) at_begin(2) by (simp add: propagates_def)
  then show ?thesis using a by (intro exI[of _ a]) (auto simp: teardown_call_def)
next
  case (in_loop root_pg flow_id s1 e)
  from begin_trace[OF in_loop(1)] obtain a where a: "trace s1 = trace s @ a" "answered w (trace s) a"
    "propagates (Inr (root_pg, flow_id) :: exn + pyval \<times> pyval) a" "\<forall>ev\<in>set a. begin_call (fst ev)" by auto
  from while_trace[OF in_loop(2)] obtain b where b: "trace s' = trace s1 @ b" "answered w (trace s1) b"
    "propagates (Inl e :: exn + unit) b" "\<forall>ev\<in>set b. loop_call (fst ev)" by auto
  have "propagates r (a @ b)" using propagates_append[OF a(3) b(3)] in_loop(3) by simp
  then show ?thesis using a b
    by (intro exI[of _ "a @ b"]) (auto simp: teardown_call_def answered_append)
next
  case (at_finish root_pg flow_id s1 s2)
  from begin_trace[OF at_finish(1)] obtain a where a: "trace s1 = trace s @ a" "answered w (trace s) a"
    "propagates (Inr (root_pg, flow_id) :: exn + pyval \<times> pyval) a" "\<forall>ev\<in>set a. begin_call (fst ev)" by auto
  from while_trace[OF at_finish(2)] obtain b where b: "trace s2 = trace s1 @ b" "answered w (trace s1) b"
    "propagates (Inr () :: exn + unit) b" "\<forall>ev\<in>set b. loop_call (fst ev)" by auto
  from strictD[OF finish_strict at_finish(3)] obtain c where c: "trace s' = trace s2 @ c"
    "answered w (trace s2) c" "\<forall>ev\<in>set c. finish_call (fst ev)" "propagates r c" by auto
  have "propagates r (a @ b @ c)"
    using propagates_append[OF a(3) propagates_append[OF b(3) c(4)]] by simp
  then show ?thesis using a b c
    by (intro exI[of _ "a @ b @ c"]) (auto simp: teardown_call_def answered_append)
qed



lemmas eval_defs = teardown_def teardown_begin_def teardown_finish_def teardown_pass_def
  teardown_for_body_def monad_defs Let_def state0_def root0_def ctrl_a_def ctrl_b_def answer_def
  list_call_def stop_call_def teardown_calls_def conflict_def unpack3.simps

lemma teardown_quiet: "teardown world_quiet state0 = Some (Inr (), quiet_final)"
  by (simp add: eval_defs teardown_while.simps world_quiet_def quiet_final_def quiet_calls_def)


lemma teardown_delete_fails:
  "teardown world_delete_fails state0 = Some (Inl (OtherException ''ConnectionError''), delete_fails_final)"
  by (simp add: eval_defs teardown_while.simps world_delete_fails_def delete_fails_final_def quiet_calls_def)

lemma pass_retry_first: "teardown_pass root0 world_retry state0 = (Inr True, retry_mid)"
  by (simp add: eval_defs world_retry_def retry_mid_def count_calls_def)

lemma pass_retry_second: "teardown_pass root0 world_retry retry_mid = (Inr False, retry_final)"
  by (simp add: eval_defs world_retry_def retry_mid_def retry_final_def count_calls_def)

lemma pass_conflict: "\<exists>s'. teardown_pass root0 world_conflict s = (Inr True, s')"
  by (simp add: eval_defs world_conflict_def)

lemma failed_passes_conflict: "\<exists>sn. failed_passes root0 world_conflict n s = Some sn"
proof (induction n arbitrary: s)
  case 0
  show ?case by simp
next
  case (Suc n)
  from pass_conflict obtain s1 where 1: "teardown_pass root0 world_conflict s = (Inr True, s1)" by blast
  from Suc[of s1] obtain sn where "failed_passes root0 world_conflict n s1 = Some sn" by blast
  then show ?case using 1 by simp
qed

lemma while_conflict: "teardown_while root0 world_conflict s = None"
proof (cases "teardown_while root0 world_conflict s")
  case None
  then show ?thesis .
next
  case (Some y)
  from while_some[OF Some] obtain n sn where "last_pass root0 world_conflict sn y" by blast
  moreover from pass_conflict obtain s' where "teardown_pass root0 world_conflict sn = (Inr True, s')" by blast
  ultimately show ?thesis by (simp add: last_pass_def)
qed

lemma teardown_conflict: "teardown world_conflict state0 = None"
  by (simp add: teardown_def teardown_begin_def monad_defs Let_def state0_def root0_def answer_def
      world_conflict_def unpack3.simps while_conflict[unfolded root0_def])








lemma bind_callE:
  assumes "bindM (callM f as kw) k w s = (r, s')"
  obtains (raised) e where "w (trace s) (Call f as kw) = Inl e" "r = Inl e"
      "s' = s\<lparr>trace := trace s @ [(Call f as kw, Inl e)]\<rparr>"
  | (went_on) v where "w (trace s) (Call f as kw) = Inr v"
      "k v w (s\<lparr>trace := trace s @ [(Call f as kw, Inr v)]\<rparr>) = (r, s')"
  using assms by (auto simp: bindM_def call_eq split: sum.splits)

lemma runs_return: "runs [] (returnM x)"
  by (simp add: runs_def returnM_def run_of_def)

lemma run_of_Cons:
  assumes "run_of cs r c"
  shows "run_of (a # cs) r ((a, Inr v) # c)"
proof -
  have "list_all returned (butlast ((a, Inr v) # c))"
    using assms by (cases c) (auto simp: run_of_def returned_def)
  then show ?thesis using assms
    by (cases r) (auto simp: run_of_def returned_def)
qed

lemma runs_bind_call:
  assumes "\<And>x. runs cs (k x)"
  shows "runs (Call f as kw # cs) (bindM (callM f as kw) k)"
  unfolding runs_def
proof (intro allI impI)
  fix w s r s'
  assume a: "bindM (callM f as kw) k w s = (r, s')"
  from a show "\<exists>c. trace s' = trace s @ c \<and> run_of (Call f as kw # cs) r c"
  proof (cases rule: bind_callE)
    case (raised e)
    then show ?thesis
      by (intro exI[of _ "[(Call f as kw, Inl e)]"]) (simp add: run_of_def)
  next
    case (went_on v)
    from assms[of v, unfolded runs_def, rule_format, OF went_on(2)]
    obtain c where c: "trace s' = trace s @ (Call f as kw, Inr v) # c" "run_of cs r c" by auto
    show ?thesis using c(1) run_of_Cons[OF c(2)] by blast
  qed
qed

lemma runs_bind:
  assumes "runs cs1 m" and "\<And>x. runs cs2 (k x)"
  shows "runs (cs1 @ cs2) (bindM m k)"
  unfolding runs_def
proof (intro allI impI)
  fix w s r s'
  assume a: "bindM m k w s = (r, s')"
  obtain r1 s1 where m: "m w s = (r1, s1)" by (cases "m w s")
  from assms(1)[unfolded runs_def, rule_format, OF m]
  obtain c1 where c1: "trace s1 = trace s @ c1" "run_of cs1 r1 c1" by auto
  show "\<exists>c. trace s' = trace s @ c \<and> run_of (cs1 @ cs2) r c"
  proof (cases r1)
    case (Inl e)
    then have "r = Inl e" "s' = s1" using a m by (auto simp: bindM_def)
    then show ?thesis using c1 Inl by (intro exI[of _ c1]) (auto simp: run_of_def)
  next
    case (Inr x)
    then have "k x w s1 = (r, s')" using a m by (simp add: bindM_def)
    from assms(2)[of x, unfolded runs_def, rule_format, OF this]
    obtain c2 where c2: "trace s' = trace s1 @ c2" "run_of cs2 r c2" by auto
    have b: "list_all returned (butlast (c1 @ c2))"
      using c1(2) c2(2) Inr by (auto simp: run_of_def butlast_append)
    have "run_of (cs1 @ cs2) r (c1 @ c2)"
      using c1(2) c2(2) Inr b by (cases r) (auto simp: run_of_def)
    then show ?thesis using c1(1) c2(1) by (intro exI[of _ "c1 @ c2"]) simp
  qed
qed

lemma runs_call: "runs [Call f as kw] (bindM (callM f as kw) (\<lambda>_. returnM ()))"
  by (intro runs_bind_call runs_return)

lemma runs_delete_client:
  "runs (if truthy v then [Call ''versioning.delete_registry_client'' [v] []] else [])
     (if truthy v
      then bindM (callM ''versioning.delete_registry_client'' [v] []) (\<lambda>_. returnM ())
      else returnM ())"
  by (simp add: runs_call runs_return)

lemma finish_tail_runs:
  "runs ((if truthy v then [Call ''versioning.delete_registry_client'' [v] []] else []) @
         [Call ''nifireg.delete_flows'' [PStr ''SensorFlows''] [],
          Call ''kudu.drop_table'' [] [],
          Call ''cdsw.delete_all_model_api_keys'' [] []])
     (bindM (if truthy v
            then bindM (callM ''versioning.delete_registry_client'' [v] []) (\<lambda>_. returnM ())
            else returnM ()) (\<lambda>_.
      bindM (callM ''nifireg.delete_flows'' [PStr ''SensorFlows''] []) (\<lambda>_.
      bindM (callM ''kudu.drop_table'' [] []) (\<lambda>_.
      bindM (callM ''cdsw.delete_all_model_api_keys'' [] []) (\<lambda>_.
      returnM ())))))"
  by (intro runs_bind runs_delete_client runs_bind_call runs_return)

lemma finish_run:
  assumes "teardown_finish root_pg flow_id w s = (r, s')"
  shows "\<exists>c. trace s' = trace s @ c \<and>
     run_of (finish_calls root_pg flow_id (lookup_answer c)) r c"
  using assms unfolding teardown_finish_def
proof (cases rule: bind_callE)
  case (raised e)
  then show ?thesis
    by (intro exI[of _ "[(Call ''nf.delete_all'' [root_pg] [], Inl e)]"])
       (simp add: run_of_def finish_calls_def)
next
  case 1: (went_on v1)
  from 1(2) show ?thesis
  proof (cases rule: bind_callE)
    case (raised e)
    then show ?thesis
      by (intro exI[of _ "[(Call ''nf.delete_all'' [root_pg] [], Inr v1),
            (Call ''efm.delete_all'' [flow_id] [], Inl e)]"])
         (simp add: run_of_def finish_calls_def returned_def)
  next
    case 2: (went_on v2)
    from 2(2) show ?thesis
    proof (cases rule: bind_callE)
      case (raised e)
      then show ?thesis
        by (intro exI[of _ "[(Call ''nf.delete_all'' [root_pg] [], Inr v1),
              (Call ''efm.delete_all'' [flow_id] [], Inr v2),
              (Call ''schreg.delete_all_schemas'' [] [], Inl e)]"])
           (simp add: run_of_def finish_calls_def returned_def)
    next
      case 3: (went_on v3)
      from 3(2) show ?thesis
      proof (cases rule: bind_callE)
        case (raised e)
        then show ?thesis
          by (intro exI[of _ "[(Call ''nf.delete_all'' [root_pg] [], Inr v1),
                (Call ''efm.delete_all'' [flow_id] [], Inr v2),
                (Call ''schreg.delete_all_schemas'' [] [], Inr v3),
                (Call ''versioning.get_registry_client'' [PStr ''NiFi Registry''] [], Inl e)]"])
             (simp add: run_of_def finish_calls_def returned_def)
      next
        case 4: (went_on v)
        from finish_tail_runs[of v, unfolded runs_def, rule_format, OF 4(2)]
        obtain ct where ct: "trace s' = trace s @
            (Call ''nf.delete_all'' [root_pg] [], Inr v1) #
            (Call ''efm.delete_all'' [flow_id] [], Inr v2) #
            (Call ''schreg.delete_all_schemas'' [] [], Inr v3) #
            (Call ''versioning.get_registry_client'' [PStr ''NiFi Registry''] [], Inr v) # ct"
          and rt: "run_of ((if truthy v then [Call ''versioning.delete_registry_client'' [v] []] else []) @
             [Call ''nifireg.delete_flows'' [PStr ''SensorFlows''] [],
              Call ''kudu.drop_table'' [] [],
              Call ''cdsw.delete_all_model_api_keys'' [] []]) r ct"
          by auto
        let ?c = "(Call ''nf.delete_all'' [root_pg] [], Inr v1) #
            (Call ''efm.delete_all'' [flow_id] [], Inr v2) #
            (Call ''schreg.delete_all_schemas'' [] [], Inr v3) #
            (Call ''versioning.get_registry_client'' [PStr ''NiFi Registry''] [], Inr v) # ct"
        have la: "lookup_answer ?c = v" by (simp add: lookup_answer_def lookup_call_def)
        have "run_of (finish_calls root_pg flow_id v) r ?c"
          unfolding finish_calls_def append_Cons append_Nil
          by (intro run_of_Cons rt)
        then show ?thesis using ct la by (intro exI[of _ ?c]) simp
      qed
    qed
  qed
qed

lemma for_prefix:
  "teardown_for cs failed w s = (r, s') \<Longrightarrow>
   \<exists>evs. trace s' = trace s @ evs \<and> prefix (map fst evs) (map stop_call cs)"
proof (induction cs arbitrary: failed s)
  case Nil
  then show ?case by (simp add: returnM_def)
next
  case (Cons c cs)
  obtain r1 s1 where b: "teardown_for_body c failed w s = (r1, s1)"
    by (cases "teardown_for_body c failed w s")
  note t = for_body(1)[OF b]
  show ?case
  proof (cases r1)
    case (Inl e)
    then have "s' = s1" using Cons.prems b by (simp add: bindM_def)
    then show ?thesis using t
      by (intro exI[of _ "[(stop_call c, w (trace s) (stop_call c))]"]) simp
  next
    case (Inr f)
    then have "teardown_for cs f w s1 = (r, s')" using Cons.prems b by (simp add: bindM_def)
    from Cons.IH[OF this] obtain evs where "trace s' = trace s1 @ evs"
      "prefix (map fst evs) (map stop_call cs)" by blast
    then show ?thesis using t
      by (intro exI[of _ "(stop_call c, w (trace s) (stop_call c)) # evs"]) simp
  qed
qed

lemma pass_cut:
  assumes "teardown_pass root_pg w s = (r, s')"
  shows "\<exists>q. trace s' = trace s @ q \<and> pass_prefix root_pg q"
proof (cases "getattr root_pg ''id''")
  case (Inl e)
  then show ?thesis using assms
    by (intro exI[of _ "[]"]) (simp add: teardown_pass_def bindM_def liftM_def pass_prefix_def)
next
  case rid: (Inr rid)
  let ?c = "Call ''canvas.list_all_controllers'' [rid] []"
  have a: "bindM (callM ''canvas.list_all_controllers'' [rid] []) (\<lambda>cs.
     bindM (liftM (iter_py cs)) (\<lambda>controllers. teardown_for controllers False)) w s = (r, s')"
    using assms rid by (simp add: teardown_pass_def bindM_def liftM_def)
  from a show ?thesis
  proof (cases rule: bind_callE)
    case (raised e)
    then show ?thesis using rid
      by (intro exI[of _ "[(?c, Inl e)]"]) (simp add: pass_prefix_def)
  next
    case (went_on v)
    show ?thesis
    proof (cases "iter_py v")
      case (Inl e)
      then show ?thesis using went_on rid
        by (intro exI[of _ "[(?c, Inr v)]"]) (auto simp: pass_prefix_def bindM_def liftM_def)
    next
      case (Inr cs)
      then have "teardown_for cs False w (s\<lparr>trace := trace s @ [(?c, Inr v)]\<rparr>) = (r, s')"
        using went_on by (simp add: bindM_def liftM_def)
      from for_prefix[OF this] obtain evs where "trace s' = trace s @ (?c, Inr v) # evs"
        "prefix (map fst evs) (map stop_call cs)" by auto
      then show ?thesis using rid Inr
        by (intro exI[of _ "(?c, Inr v) # evs"]) (simp add: pass_prefix_def)
    qed
  qed
qed

lemma failed_passes_passes:
  "failed_passes root_pg w n s = Some sn \<Longrightarrow>
   \<exists>passes. length passes = n \<and> trace sn = trace s @ concat passes \<and>
     list_all (conflict_pass root_pg) passes"
proof (induction n arbitrary: s)
  case 0
  then show ?case by simp
next
  case (Suc n)
  obtain r s1 where p: "teardown_pass root_pg w s = (r, s1)" by (cases "teardown_pass root_pg w s")
  have r: "r = Inr True" using Suc.prems p
    by (auto split: sum.splits bool.splits if_splits)
  then have n: "failed_passes root_pg w n s1 = Some sn" using Suc.prems p by simp
  from pass[OF p] r obtain evs where evs: "trace s1 = trace s @ evs" "complete_pass root_pg evs"
    "\<exists>ev\<in>set evs. is_conflict (snd ev)" by auto
  from Suc.IH[OF n] obtain passes where ps: "length passes = n"
    "trace sn = trace s1 @ concat passes" "list_all (conflict_pass root_pg) passes" by blast
  have "conflict_pass root_pg evs" using evs(2,3) by (simp add: conflict_pass_def list_ex_iff)
  then show ?case using ps evs(1)
    by (intro exI[of _ "evs # passes"]) simp
qed

lemma failed_passes_snoc:
  "failed_passes root_pg w n s = Some sn \<Longrightarrow> teardown_pass root_pg w sn = (Inr True, s1) \<Longrightarrow>
   failed_passes root_pg w (Suc n) s = Some s1"
proof (induction n arbitrary: s)
  case 0
  then show ?case by simp
next
  case (Suc n)
  obtain r s2 where p: "teardown_pass root_pg w s = (r, s2)" by (cases "teardown_pass root_pg w s")
  have r: "r = Inr True" using Suc.prems(1) p
    by (auto split: sum.splits bool.splits if_splits)
  then have "failed_passes root_pg w n s2 = Some sn" using Suc.prems(1) p by simp
  from Suc.IH[OF this Suc.prems(2)] show ?case using p r by simp
qed

lemma while_none_stage:
  assumes "teardown_while root_pg w s = None"
  shows "\<exists>sn. failed_passes root_pg w n s = Some sn"
proof (induction n)
  case 0
  show ?case by simp
next
  case (Suc n)
  then obtain sn where sn: "failed_passes root_pg w n s = Some sn" by blast
  have none: "teardown_while root_pg w sn = None"
    using failed_passes_while[OF sn] assms by simp
  obtain r s1 where p: "teardown_pass root_pg w sn = (r, s1)" by (cases "teardown_pass root_pg w sn")
  have "r = Inr True"
  proof (cases r)
    case (Inl e)
    then show ?thesis using while_raise[of root_pg w sn e s1] p none by simp
  next
    case (Inr f)
    then show ?thesis using while_exit[of root_pg w sn s1] p none by (cases f) auto
  qed
  then show ?case using failed_passes_snoc[OF sn] p by blast
qed

lemma begin_prefix:
  assumes "teardown_begin w s = (r, s')"
  shows "\<exists>evs rid. trace s' = trace s @ evs \<and> prefix (map fst evs) (begin_calls rid)"
  using assms unfolding teardown_begin_def
proof (cases rule: bind_callE)
  case (raised e)
  then show ?thesis
    by (intro exI[of _ "[(Call ''nf.set_environment'' [] [], Inl e)]"]) (simp add: begin_calls_def)
next
  case (went_on env3)
  let ?e1 = "(Call ''nf.set_environment'' [] [], Inr env3 :: response)"
  show ?thesis
  proof (cases "unpack3 env3")
    case (Inl e)
    then show ?thesis using went_on(2)
      by (intro exI[of _ "[?e1]"]) (auto simp: begin_calls_def bindM_def liftM_def)
  next
    case (Inr t)
    show ?thesis
    proof (cases "getattr (fst t) ''id''")
      case (Inl e)
      then show ?thesis using went_on(2) Inr
        by (intro exI[of _ "[?e1]"]) (auto simp: begin_calls_def bindM_def liftM_def)
    next
      case rid: (Inr rid)
      let ?e2 = "(Call ''canvas.schedule_process_group'' [rid, PBool False] [],
        w (trace s @ [?e1]) (Call ''canvas.schedule_process_group'' [rid, PBool False] []))"
      show ?thesis using went_on(2) Inr rid
        by (intro exI[of _ "[?e1, ?e2]"] exI[of _ rid])
           (auto simp: begin_calls_def bindM_def liftM_def call_eq returnM_def split: sum.splits)
    qed
  qed
qed

lemma begin_returns:
  assumes "teardown_begin w s = (Inr (root_pg, flow_id), s1)"
  shows "\<exists>env3 efm rid v. trace s1 = trace s @ begin_events env3 rid v \<and>
     answered w (trace s) (begin_events env3 rid v) \<and>
     unpack3 env3 = Inr (root_pg, efm, flow_id) \<and> getattr root_pg ''id'' = Inr rid"
  using begin_trace[OF assms] unfolding begin_events_def by fastforce

lemma loop_exit_passes:
  assumes "teardown_while root_pg w s1 = Some (Inr (), s2)"
  shows "\<exists>passes p. trace s2 = trace s1 @ concat passes @ p \<and>
     list_all (conflict_pass root_pg) passes \<and> clean_pass root_pg p"
proof -
  from while_some[OF assms] obtain n sn where n: "failed_passes root_pg w n s1 = Some sn"
    and l: "last_pass root_pg w sn (Inr (), s2)" by blast
  have p: "teardown_pass root_pg w sn = (Inr False, s2)"
    using l by (auto simp: last_pass_def split: prod.splits sum.splits)
  from failed_passes_passes[OF n] obtain passes where ps: "trace sn = trace s1 @ concat passes"
    "list_all (conflict_pass root_pg) passes" by blast
  from pass[OF p] obtain evs where evs: "trace s2 = trace sn @ evs" "complete_pass root_pg evs"
    "\<not> (\<exists>ev\<in>set evs. is_conflict (snd ev))" by auto
  have "clean_pass root_pg evs" using evs(2,3) by (simp add: clean_pass_def list_all_iff)
  then show ?thesis using ps evs(1) by (intro exI[of _ passes] exI[of _ evs]) simp
qed

lemma loop_raise_passes:
  assumes "teardown_while root_pg w s1 = Some (Inl e, s2)"
  shows "\<exists>passes q. trace s2 = trace s1 @ concat passes @ q \<and>
     list_all (conflict_pass root_pg) passes \<and> pass_prefix root_pg q"
proof -
  from while_some[OF assms] obtain n sn where n: "failed_passes root_pg w n s1 = Some sn"
    and l: "last_pass root_pg w sn (Inl e, s2)" by blast
  have p: "teardown_pass root_pg w sn = (Inl e, s2)"
    using l by (auto simp: last_pass_def split: prod.splits sum.splits)
  from failed_passes_passes[OF n] obtain passes where ps: "trace sn = trace s1 @ concat passes"
    "list_all (conflict_pass root_pg) passes" by blast
  from pass_cut[OF p] obtain q where q: "trace s2 = trace sn @ q" "pass_prefix root_pg q" by blast
  show ?thesis using ps q by (intro exI[of _ passes] exI[of _ q]) simp
qed

lemma teardown_answered:
  assumes "teardown w s = Some (r, s')" and "trace s' = trace s @ evs"
  shows "answered w (trace s) evs"
  using teardown_trace[OF assms(1)] assms(2) by auto

lemma sequence_returns:
  assumes "teardown w s = Some (Inr (), s')"
  shows "\<exists>env3 efm v root_pg rid flow_id passes p c evs.
     evs = begin_events env3 rid v @ concat passes @ p @ c \<and>
     trace s' = trace s @ evs \<and> answered w (trace s) evs \<and>
     unpack3 env3 = Inr (root_pg, efm, flow_id) \<and> getattr root_pg ''id'' = Inr rid \<and>
     list_all (conflict_pass root_pg) passes \<and> clean_pass root_pg p \<and>
     map fst c = finish_calls root_pg flow_id (lookup_answer c) \<and> list_all returned c"
  using assms
proof (cases rule: teardown_cases)
  case (at_finish root_pg flow_id s1 s2)
  from begin_returns[OF at_finish(1)] obtain env3 efm rid v where
    a: "trace s1 = trace s @ begin_events env3 rid v"
    "unpack3 env3 = Inr (root_pg, efm, flow_id)" "getattr root_pg ''id'' = Inr rid" by blast
  from loop_exit_passes[OF at_finish(2)] obtain passes p where
    b: "trace s2 = trace s1 @ concat passes @ p" "list_all (conflict_pass root_pg) passes"
    "clean_pass root_pg p" by blast
  from finish_run[OF at_finish(3)] obtain c where
    c: "trace s' = trace s2 @ c" "run_of (finish_calls root_pg flow_id (lookup_answer c)) (Inr ()) c"
    by blast
  let ?evs = "begin_events env3 rid v @ concat passes @ p @ c"
  have t: "trace s' = trace s @ ?evs" using a(1) b(1) c(1) by simp
  have an: "answered w (trace s) ?evs" by (rule teardown_answered[OF assms t])
  have f: "map fst c = finish_calls root_pg flow_id (lookup_answer c) \<and> list_all returned c"
    using c(2) by (simp add: run_of_def)
  show ?thesis
    apply (rule exI[of _ env3], rule exI[of _ efm], rule exI[of _ v], rule exI[of _ root_pg])
    apply (rule exI[of _ rid], rule exI[of _ flow_id], rule exI[of _ passes], rule exI[of _ p])
    apply (rule exI[of _ c], rule exI[of _ ?evs])
    using t an a(2,3) b(2,3) f apply simp
    done
qed simp_all

lemma sequence_raises:
  assumes "teardown w s = Some (Inl e, s')"
  shows "\<exists>evs. trace s' = trace s @ evs \<and> answered w (trace s) evs \<and>
     ((\<exists>rid. prefix (map fst evs) (begin_calls rid)) \<or>
      (\<exists>env3 efm v root_pg rid flow_id passes q.
         evs = begin_events env3 rid v @ concat passes @ q \<and>
         unpack3 env3 = Inr (root_pg, efm, flow_id) \<and> getattr root_pg ''id'' = Inr rid \<and>
         list_all (conflict_pass root_pg) passes \<and> pass_prefix root_pg q) \<or>
      (\<exists>env3 efm v root_pg rid flow_id passes p c.
         evs = begin_events env3 rid v @ concat passes @ p @ c \<and>
         unpack3 env3 = Inr (root_pg, efm, flow_id) \<and> getattr root_pg ''id'' = Inr rid \<and>
         list_all (conflict_pass root_pg) passes \<and> clean_pass root_pg p \<and>
         prefix (map fst c) (finish_calls root_pg flow_id (lookup_answer c)) \<and>
         list_all returned (butlast c) \<and> c \<noteq> [] \<and> snd (last c) = Inl e))"
  using assms
proof (cases rule: teardown_cases)
  case (at_begin e')
  from begin_prefix[OF at_begin(1)] obtain evs rid where
    a: "trace s' = trace s @ evs" "prefix (map fst evs) (begin_calls rid)" by blast
  have an: "answered w (trace s) evs" by (rule teardown_answered[OF assms a(1)])
  show ?thesis using a an by blast
next
  case (in_loop root_pg flow_id s1 e')
  from begin_returns[OF in_loop(1)] obtain env3 efm rid v where
    a: "trace s1 = trace s @ begin_events env3 rid v"
    "unpack3 env3 = Inr (root_pg, efm, flow_id)" "getattr root_pg ''id'' = Inr rid" by blast
  from loop_raise_passes[OF in_loop(2)] obtain passes q where
    b: "trace s' = trace s1 @ concat passes @ q" "list_all (conflict_pass root_pg) passes"
    "pass_prefix root_pg q" by blast
  let ?evs = "begin_events env3 rid v @ concat passes @ q"
  have t: "trace s' = trace s @ ?evs" using a(1) b(1) by simp
  have an: "answered w (trace s) ?evs" by (rule teardown_answered[OF assms t])
  have "\<exists>env3 efm v root_pg rid flow_id passes q'.
         ?evs = begin_events env3 rid v @ concat passes @ q' \<and>
         unpack3 env3 = Inr (root_pg, efm, flow_id) \<and> getattr root_pg ''id'' = Inr rid \<and>
         list_all (conflict_pass root_pg) passes \<and> pass_prefix root_pg q'"
    using a(2,3) b(2,3) by blast
  then show ?thesis using t an by (intro exI[of _ ?evs]) simp
next
  case (at_finish root_pg flow_id s1 s2)
  from begin_returns[OF at_finish(1)] obtain env3 efm rid v where
    a: "trace s1 = trace s @ begin_events env3 rid v"
    "unpack3 env3 = Inr (root_pg, efm, flow_id)" "getattr root_pg ''id'' = Inr rid" by blast
  from loop_exit_passes[OF at_finish(2)] obtain passes p where
    b: "trace s2 = trace s1 @ concat passes @ p" "list_all (conflict_pass root_pg) passes"
    "clean_pass root_pg p" by blast
  from finish_run[OF at_finish(3)] obtain c where
    c: "trace s' = trace s2 @ c" "run_of (finish_calls root_pg flow_id (lookup_answer c)) (Inl e :: exn + unit) c"
    by blast
  let ?evs = "begin_events env3 rid v @ concat passes @ p @ c"
  have t: "trace s' = trace s @ ?evs" using a(1) b(1) c(1) by simp
  have an: "answered w (trace s) ?evs" by (rule teardown_answered[OF assms t])
  have f: "prefix (map fst c) (finish_calls root_pg flow_id (lookup_answer c)) \<and>
         list_all returned (butlast c) \<and> c \<noteq> [] \<and> snd (last c) = Inl e"
    using c(2) by (simp add: run_of_def)
  have "\<exists>env3 efm v root_pg rid flow_id passes p' c'.
         ?evs = begin_events env3 rid v @ concat passes @ p' @ c' \<and>
         unpack3 env3 = Inr (root_pg, efm, flow_id) \<and> getattr root_pg ''id'' = Inr rid \<and>
         list_all (conflict_pass root_pg) passes \<and> clean_pass root_pg p' \<and>
         prefix (map fst c') (finish_calls root_pg flow_id (lookup_answer c')) \<and>
         list_all returned (butlast c') \<and> c' \<noteq> [] \<and> snd (last c') = Inl e"
    using a(2,3) b(2,3) f by blast
  then show ?thesis using t an by (intro exI[of _ ?evs]) simp
qed

lemma teardown_none:
  assumes "teardown w s = None"
  obtains root_pg flow_id s1 where "teardown_begin w s = (Inr (root_pg, flow_id), s1)"
    "teardown_while root_pg w s1 = None"
  using assms by (auto simp: teardown_def split: prod.splits sum.splits option.splits)

lemma sequence_never_returns:
  assumes "teardown w s = None"
  shows "\<exists>env3 efm v root_pg rid flow_id s1.
     teardown_begin w s = (Inr (root_pg, flow_id), s1) \<and>
     unpack3 env3 = Inr (root_pg, efm, flow_id) \<and> getattr root_pg ''id'' = Inr rid \<and>
     (\<forall>n. \<exists>sn passes. failed_passes root_pg w n s1 = Some sn \<and> length passes = n \<and>
        trace sn = trace s @ begin_events env3 rid v @ concat passes \<and>
        answered w (trace s) (begin_events env3 rid v @ concat passes) \<and>
        list_all (conflict_pass root_pg) passes)"
  using assms
proof (cases rule: teardown_none)
  case (1 root_pg flow_id s1)
  from begin_returns[OF 1(1)] obtain env3 efm rid v where
    a: "trace s1 = trace s @ begin_events env3 rid v" "answered w (trace s) (begin_events env3 rid v)"
    "unpack3 env3 = Inr (root_pg, efm, flow_id)" "getattr root_pg ''id'' = Inr rid" by blast
  have st: "\<exists>sn passes. failed_passes root_pg w n s1 = Some sn \<and> length passes = n \<and>
        trace sn = trace s @ begin_events env3 rid v @ concat passes \<and>
        answered w (trace s) (begin_events env3 rid v @ concat passes) \<and>
        list_all (conflict_pass root_pg) passes" for n
  proof -
    from while_none_stage[OF 1(2), of n] obtain sn where sn: "failed_passes root_pg w n s1 = Some sn"
      by blast
    from failed_passes_passes[OF sn] obtain passes where ps: "length passes = n"
      "trace sn = trace s1 @ concat passes" "list_all (conflict_pass root_pg) passes" by blast
    from failed_passes_trace[OF sn] obtain evs where evs: "trace sn = trace s1 @ evs"
      "answered w (trace s1) evs" by blast
    have "evs = concat passes" using ps(2) evs(1) by simp
    then have "answered w (trace s) (begin_events env3 rid v @ concat passes)"
      using a(1,2) evs(2) by (simp add: answered_append)
    then show ?thesis using sn ps a(1) by (intro exI[of _ sn] exI[of _ passes]) simp
  qed
  show ?thesis
    apply (rule exI[of _ env3], rule exI[of _ efm], rule exI[of _ v], rule exI[of _ root_pg])
    apply (rule exI[of _ rid], rule exI[of _ flow_id], rule exI[of _ s1])
    using 1(1) a(3,4) st apply simp
    done
qed

lemma teardown_retry: "teardown world_retry state0 = Some (Inr (), retry_done)"
  by (simp add: eval_defs teardown_while.simps world_retry_def retry_done_def retry_pass1_def
      retry_pass2_def finish_events_def finish_calls_def begin_events_def env0_def count_calls_def
      retry_final_def retry_mid_def)

lemma read_in_schema_file:
  assumes "environ s ''SCHEMA_FILE'' = Some p" and "w (trace s) (exists_call p) = Inr b" and "truthy b"
    and "w (trace s @ [(exists_call p, Inr b)]) (open_call p) = Inr f"
    and "w (trace s @ [(exists_call p, Inr b), (open_call p, Inr f)]) (read_call f) = Inr contents"
  shows "read_in_schema uri w s =
     (Inr contents, s\<lparr>trace := trace s @
        [(exists_call p, Inr b), (open_call p, Inr f), (read_call f, Inr contents)]\<rparr>)"
  using assms
  by (simp add: read_in_schema_def monad_defs Let_def exists_call_def open_call_def read_call_def)

lemma read_in_schema_http:
  assumes "http_branch w s = Some t0" and "w t0 (get_call uri) = Inr r"
    and "getattr r ''status_code'' = Inr sc"
  shows "read_in_schema uri w s =
     (if sc = PInt 200 then getattr r ''text''
      else Inl (ValueError [PStr ''Unable to retrieve schema from URI, response was %s'', sc]),
      s\<lparr>trace := t0 @ [(get_call uri, Inr r)]\<rparr>)"
  using assms
  by (auto simp: read_in_schema_def monad_defs Let_def exists_call_def get_call_def http_branch_def
      split: option.splits sum.splits if_splits)

section \<open>The claims\<close>

text \<open>
  Claim C1. The retry loop exits normally only after a complete pass (one
  \<^verbatim>\<open>list_all_controllers\<close> call answered, then one \<^verbatim>\<open>schedule_controller(controller, False)\<close>
  call for every controller of its answer) in which no call raised the 409 conflict,
  all earlier passes having recorded one. A pass that returns is complete and sets
  \<open>failed\<close> exactly when one of its calls raised the conflict; when it does, the loop
  runs again from the state the pass left, with a new pass over all controllers.
\<close>

theorem teardown_loop_exit:
  "(teardown_while root_pg w s = Some (Inr (), s') \<longrightarrow>
      (\<exists>n sn evs. failed_passes root_pg w n s = Some sn \<and>
         teardown_pass root_pg w sn = (Inr False, s') \<and>
         trace s' = trace sn @ evs \<and> complete_pass root_pg evs \<and>
         list_all (\<lambda>ev. \<not> is_conflict (snd ev)) evs)) \<and>
   (teardown_pass root_pg w s = (Inr failed, s1) \<longrightarrow>
      (\<exists>evs. trace s1 = trace s @ evs \<and> complete_pass root_pg evs \<and>
         failed = list_ex (\<lambda>ev. is_conflict (snd ev)) evs) \<and>
      (failed \<longrightarrow> teardown_while root_pg w s = teardown_while root_pg w s1))"
proof (intro conjI impI)
  assume a: "teardown_while root_pg w s = Some (Inr (), s')"
  from while_some[OF a] obtain n sn where n: "failed_passes root_pg w n s = Some sn"
    and l: "last_pass root_pg w sn (Inr (), s')" by blast
  have p: "teardown_pass root_pg w sn = (Inr False, s')"
    using l by (auto simp: last_pass_def split: prod.splits sum.splits)
  from pass[OF p] obtain evs where evs: "trace s' = trace sn @ evs" "complete_pass root_pg evs"
    "\<not> (\<exists>ev\<in>set evs. is_conflict (snd ev))" by auto
  have "list_all (\<lambda>ev. \<not> is_conflict (snd ev)) evs" using evs(3) by (simp add: list_all_iff)
  then show "\<exists>n sn evs. failed_passes root_pg w n s = Some sn \<and>
         teardown_pass root_pg w sn = (Inr False, s') \<and>
         trace s' = trace sn @ evs \<and> complete_pass root_pg evs \<and>
         list_all (\<lambda>ev. \<not> is_conflict (snd ev)) evs"
    using n p evs(1,2) by blast
next
  assume p: "teardown_pass root_pg w s = (Inr failed, s1)"
  from pass[OF p] obtain evs where evs: "trace s1 = trace s @ evs" "complete_pass root_pg evs"
    "failed = (\<exists>ev\<in>set evs. is_conflict (snd ev))" by auto
  have "failed = list_ex (\<lambda>ev. is_conflict (snd ev)) evs" using evs(3) by (simp add: list_ex_iff)
  then show "\<exists>evs. trace s1 = trace s @ evs \<and> complete_pass root_pg evs \<and>
         failed = list_ex (\<lambda>ev. is_conflict (snd ev)) evs"
    using evs(1,2) by blast
next
  assume "teardown_pass root_pg w s = (Inr failed, s1)" and failed
  then show "teardown_while root_pg w s = teardown_while root_pg w s1"
    by (simp add: while_unfold_failed)
qed

lemma while_retry: "teardown_while root0 world_retry state0 = Some (Inr (), retry_final)"
  using while_unfold_failed[OF pass_retry_first] while_exit[OF pass_retry_second] by simp

theorem teardown_loop_exit_witness:
  "teardown_while root0 world_retry state0 = Some (Inr (), retry_final) \<and>
   teardown_pass root0 world_retry state0 = (Inr True, retry_mid) \<and>
   (\<exists>n sn evs. failed_passes root0 world_retry n state0 = Some sn \<and>
      teardown_pass root0 world_retry sn = (Inr False, retry_final) \<and>
      trace retry_final = trace sn @ evs \<and> complete_pass root0 evs \<and>
      list_all (\<lambda>ev. \<not> is_conflict (snd ev)) evs) \<and>
   (\<exists>evs. trace retry_mid = trace state0 @ evs \<and> complete_pass root0 evs \<and>
      True = list_ex (\<lambda>ev. is_conflict (snd ev)) evs) \<and>
   teardown_while root0 world_retry state0 = teardown_while root0 world_retry retry_mid"
  using teardown_loop_exit[of root0 world_retry state0 retry_final True retry_mid]
    while_retry pass_retry_first
  by simp







text \<open>
  Claim C4. Every execution of teardown issues its calls in one fixed order, each call
  answered by the environment on the trace of all calls before it (\<open>answered\<close>: none is
  issued before its predecessor has returned).

  \<^item> A run that returns normally has issued \<^verbatim>\<open>nf.set_environment\<close> (which gives \<open>root_pg\<close>
    and \<open>flow_id\<close>) and \<^verbatim>\<open>schedule_process_group(root_pg.id, False)\<close>; then the passes of
    the poll loop, each of them \<^verbatim>\<open>list_all_controllers(root_pg.id)\<close> followed by
    \<^verbatim>\<open>schedule_controller(c, False)\<close> for every controller \<open>c\<close> of its answer, in order, all
    passes but the last with a 409 conflict and the last one without; then
    \<^verbatim>\<open>nf.delete_all(root_pg)\<close>, \<^verbatim>\<open>efm.delete_all(flow_id)\<close>, \<^verbatim>\<open>schreg.delete_all_schemas()\<close>,
    the lookup of the registry client, its deletion only when the lookup answered a
    truthy value, \<^verbatim>\<open>nifireg.delete_flows('SensorFlows')\<close>, \<^verbatim>\<open>kudu.drop_table()\<close> and
    \<^verbatim>\<open>cdsw.delete_all_model_api_keys()\<close> (\<open>finish_calls\<close>).
  \<^item> A run that raises has issued an initial part of such a sequence: it stopped in
    lines 61 to 63, or in a pass of the loop after complete passes with a conflict, or,
    after the loop has exited, at the call of the final sequence that raised.
  \<^item> A run that never returns has, for every \<open>n\<close>, a stage at which it has issued the two
    first calls and then \<open>n\<close> complete passes with a conflict.
\<close>

theorem teardown_call_sequence:
  "(teardown w s = Some (Inr (), s') \<longrightarrow>
      (\<exists>env3 efm v root_pg rid flow_id passes p c evs.
         evs = begin_events env3 rid v @ concat passes @ p @ c \<and>
         trace s' = trace s @ evs \<and> answered w (trace s) evs \<and>
         unpack3 env3 = Inr (root_pg, efm, flow_id) \<and> getattr root_pg ''id'' = Inr rid \<and>
         list_all (conflict_pass root_pg) passes \<and> clean_pass root_pg p \<and>
         map fst c = finish_calls root_pg flow_id (lookup_answer c) \<and> list_all returned c)) \<and>
   (teardown w s = Some (Inl e, s') \<longrightarrow>
      (\<exists>evs. trace s' = trace s @ evs \<and> answered w (trace s) evs \<and>
         ((\<exists>rid. prefix (map fst evs) (begin_calls rid)) \<or>
          (\<exists>env3 efm v root_pg rid flow_id passes q.
             evs = begin_events env3 rid v @ concat passes @ q \<and>
             unpack3 env3 = Inr (root_pg, efm, flow_id) \<and> getattr root_pg ''id'' = Inr rid \<and>
             list_all (conflict_pass root_pg) passes \<and> pass_prefix root_pg q) \<or>
          (\<exists>env3 efm v root_pg rid flow_id passes p c.
             evs = begin_events env3 rid v @ concat passes @ p @ c \<and>
             unpack3 env3 = Inr (root_pg, efm, flow_id) \<and> getattr root_pg ''id'' = Inr rid \<and>
             list_all (conflict_pass root_pg) passes \<and> clean_pass root_pg p \<and>
             prefix (map fst c) (finish_calls root_pg flow_id (lookup_answer c)) \<and>
             list_all returned (butlast c) \<and> c \<noteq> [] \<and> snd (last c) = Inl e)))) \<and>
   (teardown w s = None \<longrightarrow>
      (\<exists>env3 efm v root_pg rid flow_id s1.
         teardown_begin w s = (Inr (root_pg, flow_id), s1) \<and>
         unpack3 env3 = Inr (root_pg, efm, flow_id) \<and> getattr root_pg ''id'' = Inr rid \<and>
         (\<forall>n. \<exists>sn passes. failed_passes root_pg w n s1 = Some sn \<and> length passes = n \<and>
            trace sn = trace s @ begin_events env3 rid v @ concat passes \<and>
            answered w (trace s) (begin_events env3 rid v @ concat passes) \<and>
            list_all (conflict_pass root_pg) passes)))"
  by (intro conjI impI; erule sequence_returns sequence_raises sequence_never_returns)

theorem teardown_call_sequence_witness:
  "teardown world_retry state0 = Some (Inr (), retry_done) \<and>
   trace retry_done =
     begin_events env0 (PStr ''root'') PNone @ retry_pass1 @ retry_pass2 @ finish_events \<and>
   conflict_pass root0 retry_pass1 \<and> clean_pass root0 retry_pass2 \<and>
   (\<exists>env3 efm v root_pg rid flow_id passes p c evs.
      evs = begin_events env3 rid v @ concat passes @ p @ c \<and>
      trace retry_done = trace state0 @ evs \<and> answered world_retry (trace state0) evs \<and>
      unpack3 env3 = Inr (root_pg, efm, flow_id) \<and> getattr root_pg ''id'' = Inr rid \<and>
      list_all (conflict_pass root_pg) passes \<and> clean_pass root_pg p \<and>
      map fst c = finish_calls root_pg flow_id (lookup_answer c) \<and> list_all returned c) \<and>
   teardown world_delete_fails state0 =
     Some (Inl (OtherException ''ConnectionError''), delete_fails_final) \<and>
   (\<exists>evs. trace delete_fails_final = trace state0 @ evs \<and>
      answered world_delete_fails (trace state0) evs \<and>
      ((\<exists>rid. prefix (map fst evs) (begin_calls rid)) \<or>
       (\<exists>env3 efm v root_pg rid flow_id passes q.
          evs = begin_events env3 rid v @ concat passes @ q \<and>
          unpack3 env3 = Inr (root_pg, efm, flow_id) \<and> getattr root_pg ''id'' = Inr rid \<and>
          list_all (conflict_pass root_pg) passes \<and> pass_prefix root_pg q) \<or>
       (\<exists>env3 efm v root_pg rid flow_id passes p c.
          evs = begin_events env3 rid v @ concat passes @ p @ c \<and>
          unpack3 env3 = Inr (root_pg, efm, flow_id) \<and> getattr root_pg ''id'' = Inr rid \<and>
          list_all (conflict_pass root_pg) passes \<and> clean_pass root_pg p \<and>
          prefix (map fst c) (finish_calls root_pg flow_id (lookup_answer c)) \<and>
          list_all returned (butlast c) \<and> c \<noteq> [] \<and>
          snd (last c) = Inl (OtherException ''ConnectionError'')))) \<and>
   teardown world_conflict state0 = None \<and>
   (\<exists>env3 efm v root_pg rid flow_id s1.
      teardown_begin world_conflict state0 = (Inr (root_pg, flow_id), s1) \<and>
      unpack3 env3 = Inr (root_pg, efm, flow_id) \<and> getattr root_pg ''id'' = Inr rid \<and>
      (\<forall>n. \<exists>sn passes. failed_passes root_pg world_conflict n s1 = Some sn \<and> length passes = n \<and>
         trace sn = trace state0 @ begin_events env3 rid v @ concat passes \<and>
         answered world_conflict (trace state0) (begin_events env3 rid v @ concat passes) \<and>
         list_all (conflict_pass root_pg) passes))"
proof (intro conjI)
  show "teardown world_retry state0 = Some (Inr (), retry_done)"
    by (rule teardown_retry)
  show "trace retry_done =
     begin_events env0 (PStr ''root'') PNone @ retry_pass1 @ retry_pass2 @ finish_events"
    by (simp add: retry_done_def)
  show "conflict_pass root0 retry_pass1"
    by (simp add: conflict_pass_def complete_pass_def retry_pass1_def root0_def list_call_def
        is_conflict_def conflict_def)
  show "clean_pass root0 retry_pass2"
    by (simp add: clean_pass_def complete_pass_def retry_pass2_def root0_def list_call_def
        is_conflict_def stop_call_def)
  show "\<exists>env3 efm v root_pg rid flow_id passes p c evs.
      evs = begin_events env3 rid v @ concat passes @ p @ c \<and>
      trace retry_done = trace state0 @ evs \<and> answered world_retry (trace state0) evs \<and>
      unpack3 env3 = Inr (root_pg, efm, flow_id) \<and> getattr root_pg ''id'' = Inr rid \<and>
      list_all (conflict_pass root_pg) passes \<and> clean_pass root_pg p \<and>
      map fst c = finish_calls root_pg flow_id (lookup_answer c) \<and> list_all returned c"
    by (rule teardown_call_sequence[of world_retry state0 retry_done, THEN conjunct1,
          rule_format, OF teardown_retry])
  show "teardown world_delete_fails state0 =
     Some (Inl (OtherException ''ConnectionError''), delete_fails_final)"
    by (rule teardown_delete_fails)
  show "\<exists>evs. trace delete_fails_final = trace state0 @ evs \<and>
      answered world_delete_fails (trace state0) evs \<and>
      ((\<exists>rid. prefix (map fst evs) (begin_calls rid)) \<or>
       (\<exists>env3 efm v root_pg rid flow_id passes q.
          evs = begin_events env3 rid v @ concat passes @ q \<and>
          unpack3 env3 = Inr (root_pg, efm, flow_id) \<and> getattr root_pg ''id'' = Inr rid \<and>
          list_all (conflict_pass root_pg) passes \<and> pass_prefix root_pg q) \<or>
       (\<exists>env3 efm v root_pg rid flow_id passes p c.
          evs = begin_events env3 rid v @ concat passes @ p @ c \<and>
          unpack3 env3 = Inr (root_pg, efm, flow_id) \<and> getattr root_pg ''id'' = Inr rid \<and>
          list_all (conflict_pass root_pg) passes \<and> clean_pass root_pg p \<and>
          prefix (map fst c) (finish_calls root_pg flow_id (lookup_answer c)) \<and>
          list_all returned (butlast c) \<and> c \<noteq> [] \<and>
          snd (last c) = Inl (OtherException ''ConnectionError'')))"
    by (rule teardown_call_sequence[of world_delete_fails state0 delete_fails_final
          "OtherException ''ConnectionError''", THEN conjunct2, THEN conjunct1, rule_format, OF teardown_delete_fails])
  show "teardown world_conflict state0 = None"
    by (rule teardown_conflict)
  show "\<exists>env3 efm v root_pg rid flow_id s1.
      teardown_begin world_conflict state0 = (Inr (root_pg, flow_id), s1) \<and>
      unpack3 env3 = Inr (root_pg, efm, flow_id) \<and> getattr root_pg ''id'' = Inr rid \<and>
      (\<forall>n. \<exists>sn passes. failed_passes root_pg world_conflict n s1 = Some sn \<and> length passes = n \<and>
         trace sn = trace state0 @ begin_events env3 rid v @ concat passes \<and>
         answered world_conflict (trace state0) (begin_events env3 rid v @ concat passes) \<and>
         list_all (conflict_pass root_pg) passes)"
    by (rule teardown_call_sequence[of world_conflict state0, THEN conjunct2, THEN conjunct2,
          rule_format, OF teardown_conflict])
qed

text \<open>
  Claim C5. The loop has no backoff and no limit on its attempts: after any number \<open>n\<close>
  of passes that recorded a conflict it goes on exactly as a loop started in the state
  reached (it keeps no count), all it has done in between is to issue
  \<^verbatim>\<open>list_all_controllers\<close> and \<^verbatim>\<open>schedule_controller\<close> calls, each answered on the trace
  of the calls before it (no sleep or wait call), and for every \<open>n\<close> there is a run with
  \<open>n\<close> conflicting passes in a row.
\<close>

theorem teardown_loop_no_backoff_no_limit:
  "(failed_passes root_pg w n s = Some sn \<longrightarrow>
      teardown_while root_pg w s = teardown_while root_pg w sn \<and>
      (\<exists>evs. trace sn = trace s @ evs \<and> answered w (trace s) evs \<and>
         list_all (\<lambda>ev. loop_call (fst ev)) evs)) \<and>
   (\<exists>sn. failed_passes root0 world_conflict n state0 = Some sn)"
proof (intro conjI impI)
  assume a: "failed_passes root_pg w n s = Some sn"
  show "teardown_while root_pg w s = teardown_while root_pg w sn"
    by (rule failed_passes_while[OF a])
  from failed_passes_trace[OF a] obtain evs where "trace sn = trace s @ evs"
    "answered w (trace s) evs" "\<forall>ev\<in>set evs. loop_call (fst ev)" by blast
  then show "\<exists>evs. trace sn = trace s @ evs \<and> answered w (trace s) evs \<and>
         list_all (\<lambda>ev. loop_call (fst ev)) evs"
    by (auto simp: list_all_iff)
next
  show "\<exists>sn. failed_passes root0 world_conflict n state0 = Some sn"
    by (rule failed_passes_conflict)
qed

theorem teardown_loop_no_backoff_no_limit_witness:
  "failed_passes root0 world_retry 1 state0 = Some retry_mid \<and>
   teardown_while root0 world_retry state0 = teardown_while root0 world_retry retry_mid \<and>
   (\<exists>evs. trace retry_mid = trace state0 @ evs \<and> answered world_retry (trace state0) evs \<and>
      list_all (\<lambda>ev. loop_call (fst ev)) evs) \<and>
   (\<exists>sn. failed_passes root0 world_conflict 1 state0 = Some sn)"
proof -
  have 1: "failed_passes root0 world_retry 1 state0 = Some retry_mid"
    by (simp add: pass_retry_first)
  show ?thesis
    using teardown_loop_no_backoff_no_limit[of root0 world_retry 1 state0 retry_mid] 1 by simp
qed

text \<open>
  Claim C8. \<^verbatim>\<open>read_in_schema\<close> (lines 25 to 32). When \<^verbatim>\<open>SCHEMA_FILE\<close> is set and
  \<^verbatim>\<open>os.path.exists\<close> answers a true value for it, the result is what reading the opened
  file returns, and no HTTP request is made. Otherwise (\<open>http_branch\<close>: the variable is
  not set, or the file does not exist) the URI is fetched with \<^verbatim>\<open>requests.get\<close>; the
  result is the \<^verbatim>\<open>text\<close> of the response when its status code is 200, and for every
  other status code \<^verbatim>\<open>ValueError\<close> is raised, with the message and the status code as
  its arguments. In both cases no other call is made.
\<close>

theorem read_in_schema_result:
  "(environ s ''SCHEMA_FILE'' = Some p \<and> w (trace s) (exists_call p) = Inr b \<and> truthy b \<and>
    w (trace s @ [(exists_call p, Inr b)]) (open_call p) = Inr f \<and>
    w (trace s @ [(exists_call p, Inr b), (open_call p, Inr f)]) (read_call f) = Inr contents \<longrightarrow>
      read_in_schema uri w s =
        (Inr contents, s\<lparr>trace := trace s @
           [(exists_call p, Inr b), (open_call p, Inr f), (read_call f, Inr contents)]\<rparr>)) \<and>
   (http_branch w s = Some t0 \<and> w t0 (get_call uri) = Inr r \<and>
    getattr r ''status_code'' = Inr sc \<longrightarrow>
      read_in_schema uri w s =
        (if sc = PInt 200 then getattr r ''text''
         else Inl (ValueError [PStr ''Unable to retrieve schema from URI, response was %s'', sc]),
         s\<lparr>trace := t0 @ [(get_call uri, Inr r)]\<rparr>))"
proof (intro conjI impI)
  assume "environ s ''SCHEMA_FILE'' = Some p \<and> w (trace s) (exists_call p) = Inr b \<and> truthy b \<and>
    w (trace s @ [(exists_call p, Inr b)]) (open_call p) = Inr f \<and>
    w (trace s @ [(exists_call p, Inr b), (open_call p, Inr f)]) (read_call f) = Inr contents"
  then show "read_in_schema uri w s =
        (Inr contents, s\<lparr>trace := trace s @
           [(exists_call p, Inr b), (open_call p, Inr f), (read_call f, Inr contents)]\<rparr>)"
    using read_in_schema_file[of s p w b f contents uri] by simp
next
  assume "http_branch w s = Some t0 \<and> w t0 (get_call uri) = Inr r \<and>
    getattr r ''status_code'' = Inr sc"
  then show "read_in_schema uri w s =
        (if sc = PInt 200 then getattr r ''text''
         else Inl (ValueError [PStr ''Unable to retrieve schema from URI, response was %s'', sc]),
         s\<lparr>trace := t0 @ [(get_call uri, Inr r)]\<rparr>)"
    using read_in_schema_http[of w s t0 uri r sc] by simp
qed

theorem read_in_schema_result_witness:
  "read_in_schema SCHEMA_URI world_file state_file =
     (Inr (PStr ''{type: record}''),
      state_file\<lparr>trace :=
        [(exists_call ''/tmp/sensor.avsc'', Inr (PBool True)),
         (open_call ''/tmp/sensor.avsc'', Inr (PObj [(''name'', PStr ''/tmp/sensor.avsc'')])),
         (read_call (PObj [(''name'', PStr ''/tmp/sensor.avsc'')]), Inr (PStr ''{type: record}''))]\<rparr>) \<and>
   read_in_schema SCHEMA_URI (world_http 200) state0 =
     (Inr (PStr ''{type: record}''),
      state0\<lparr>trace := [(get_call SCHEMA_URI,
         Inr (PObj [(''status_code'', PInt 200), (''text'', PStr ''{type: record}'')]))]\<rparr>) \<and>
   read_in_schema SCHEMA_URI (world_http 404) state_file =
     (Inl (ValueError [PStr ''Unable to retrieve schema from URI, response was %s'', PInt 404]),
      state_file\<lparr>trace :=
        [(exists_call ''/tmp/sensor.avsc'', Inr (PBool False)),
         (get_call SCHEMA_URI,
          Inr (PObj [(''status_code'', PInt 404), (''text'', PStr ''{type: record}'')]))]\<rparr>)"
proof (intro conjI)
  show "read_in_schema SCHEMA_URI world_file state_file =
     (Inr (PStr ''{type: record}''),
      state_file\<lparr>trace :=
        [(exists_call ''/tmp/sensor.avsc'', Inr (PBool True)),
         (open_call ''/tmp/sensor.avsc'', Inr (PObj [(''name'', PStr ''/tmp/sensor.avsc'')])),
         (read_call (PObj [(''name'', PStr ''/tmp/sensor.avsc'')]), Inr (PStr ''{type: record}''))]\<rparr>)"
    using read_in_schema_result[of state_file "''/tmp/sensor.avsc''" world_file "PBool True"
        "PObj [(''name'', PStr ''/tmp/sensor.avsc'')]" "PStr ''{type: record}''" SCHEMA_URI,
        THEN conjunct1]
    by (simp add: state_file_def state0_def world_file_def exists_call_def open_call_def read_call_def)
  show "read_in_schema SCHEMA_URI (world_http 200) state0 =
     (Inr (PStr ''{type: record}''),
      state0\<lparr>trace := [(get_call SCHEMA_URI,
         Inr (PObj [(''status_code'', PInt 200), (''text'', PStr ''{type: record}'')]))]\<rparr>)"
    using read_in_schema_result[of state0 _ "world_http 200" _ _ _ SCHEMA_URI "[]"
        "PObj [(''status_code'', PInt 200), (''text'', PStr ''{type: record}'')]" "PInt 200",
        THEN conjunct2]
    by (simp add: state0_def world_http_def get_call_def http_branch_def)
  show "read_in_schema SCHEMA_URI (world_http 404) state_file =
     (Inl (ValueError [PStr ''Unable to retrieve schema from URI, response was %s'', PInt 404]),
      state_file\<lparr>trace :=
        [(exists_call ''/tmp/sensor.avsc'', Inr (PBool False)),
         (get_call SCHEMA_URI,
          Inr (PObj [(''status_code'', PInt 404), (''text'', PStr ''{type: record}'')]))]\<rparr>)"
    using read_in_schema_result[of state_file _ "world_http 404" _ _ _ SCHEMA_URI
        "[(exists_call ''/tmp/sensor.avsc'', Inr (PBool False))]"
        "PObj [(''status_code'', PInt 404), (''text'', PStr ''{type: record}'')]" "PInt 404",
        THEN conjunct2]
    by (simp add: state_file_def state0_def world_http_def get_call_def http_branch_def exists_call_def)
qed

end
